theory Spec2Isabelle
  imports Main
begin

section \<open>Values of the raw conversation record\<close>

text \<open>
  The conversation record is parsed JSON. Python's \<^verbatim>\<open>json.load\<close> yields \<^verbatim>\<open>None\<close>,
  booleans, integers, strings, lists and dictionaries with string keys. A dictionary is an
  association list in insertion order (Python dictionaries keep it, and
  \<^verbatim>\<open>list(msg.keys())[0]\<close> reads it). Floating-point numbers are not modelled.
\<close>

datatype json =
    JNull
  | JBool bool
  | JInt int
  | JStr string
  | JList "json list"
  | JDict "(string \<times> json) list"

type_synonym dict = "(string \<times> json) list"

datatype error = TypeError | AttributeError | ValueError

text \<open>Sequencing of computations that may raise: the first exception wins.\<close>

definition ebind :: "error + 'a \<Rightarrow> ('a \<Rightarrow> error + 'b) \<Rightarrow> error + 'b" where
  "ebind m f = (case m of Inl e \<Rightarrow> Inl e | Inr x \<Rightarrow> f x)"

text \<open>Truth value testing (\<^verbatim>\<open>if x\<close>, \<^verbatim>\<open>not x\<close>, \<^verbatim>\<open>x or y\<close>).\<close>

fun truthy :: "json \<Rightarrow> bool" where
  "truthy JNull = False"
| "truthy (JBool b) = b"
| "truthy (JInt n) = (n \<noteq> 0)"
| "truthy (JStr s) = (s \<noteq> [])"
| "truthy (JList xs) = (xs \<noteq> [])"
| "truthy (JDict d) = (d \<noteq> [])"

definition py_or :: "json \<Rightarrow> json \<Rightarrow> json" where
  "py_or a b = (if truthy a then a else b)"

text \<open>\<^verbatim>\<open>d.get(k)\<close>, \<^verbatim>\<open>d.get(k, default)\<close> and \<^verbatim>\<open>k in d\<close>.\<close>

definition dict_get_default :: "dict \<Rightarrow> string \<Rightarrow> json \<Rightarrow> json" where
  "dict_get_default d k dflt = (case map_of d k of None \<Rightarrow> dflt | Some v \<Rightarrow> v)"

definition dict_get :: "dict \<Rightarrow> string \<Rightarrow> json" where
  "dict_get d k = dict_get_default d k JNull"

definition dict_has :: "dict \<Rightarrow> string \<Rightarrow> bool" where
  "dict_has d k = (map_of d k \<noteq> None)"

text \<open>\<^verbatim>\<open>d[k] = v\<close>: an existing key keeps its position.\<close>

fun dict_set :: "('k \<times> 'v) list \<Rightarrow> 'k \<Rightarrow> 'v \<Rightarrow> ('k \<times> 'v) list" where
  "dict_set [] k v = [(k, v)]"
| "dict_set ((k', v') # d) k v =
     (if k' = k then (k', v) # d else (k', v') # dict_set d k v)"

text \<open>\<^verbatim>\<open>d.setdefault(k, v)\<close>: only a missing key is written.\<close>

definition dict_setdefault :: "dict \<Rightarrow> string \<Rightarrow> json \<Rightarrow> dict" where
  "dict_setdefault d k v = (if dict_has d k then d else d @ [(k, v)])"

text \<open>
  Lists and dictionaries are unhashable: using one as a dictionary key or testing it for
  membership in a set raises \<^verbatim>\<open>TypeError\<close>.
\<close>

fun hashable :: "json \<Rightarrow> bool" where
  "hashable (JList xs) = False"
| "hashable (JDict d) = False"
| "hashable v = True"

text \<open>\<^verbatim>\<open>isinstance(v, dict)\<close>\<close>

fun is_dict :: "json \<Rightarrow> bool" where
  "is_dict (JDict d) = True"
| "is_dict v = False"

text \<open>Iteration (\<^verbatim>\<open>for x in v\<close>): a string yields its characters, a dictionary its keys.\<close>

fun py_iter :: "json \<Rightarrow> error + json list" where
  "py_iter (JList xs) = Inr xs"
| "py_iter (JStr s) = Inr (map (\<lambda>c. JStr [c]) s)"
| "py_iter (JDict d) = Inr (map (\<lambda>kv. JStr (fst kv)) d)"
| "py_iter v = Inl TypeError"

text \<open>
  \<^verbatim>\<open>a + b\<close>: integers add (a boolean is an integer), strings and lists concatenate, and
  every other combination raises \<^verbatim>\<open>TypeError\<close>.
\<close>

fun as_int :: "json \<Rightarrow> int option" where
  "as_int (JInt n) = Some n"
| "as_int (JBool b) = Some (if b then 1 else 0)"
| "as_int v = None"

fun py_add :: "json \<Rightarrow> json \<Rightarrow> error + json" where
  "py_add (JStr a) (JStr b) = Inr (JStr (a @ b))"
| "py_add (JList a) (JList b) = Inr (JList (a @ b))"
| "py_add a b =
     (case (as_int a, as_int b) of
        (Some m, Some n) \<Rightarrow> Inr (JInt (m + n))
      | _ \<Rightarrow> Inl TypeError)"

text \<open>\<^verbatim>\<open>sum(values)\<close> starts from the integer 0, so only integers can be summed.\<close>

fun py_sum_from :: "int \<Rightarrow> json list \<Rightarrow> error + int" where
  "py_sum_from acc [] = Inr acc"
| "py_sum_from acc (v # vs) =
     (case as_int v of None \<Rightarrow> Inl TypeError | Some n \<Rightarrow> py_sum_from (acc + n) vs)"

definition py_sum :: "json list \<Rightarrow> error + int" where
  "py_sum vs = py_sum_from 0 vs"

subsection \<open>Strings\<close>

text \<open>
  A character is a code point below 256. \<^verbatim>\<open>str.strip()\<close> removes leading and trailing
  whitespace, which in that range is the characters 9 to 13, 28 to 32, 133 and 160.
\<close>

definition py_isspace :: "char \<Rightarrow> bool" where
  "py_isspace c =
     (let n = (of_char c :: nat) in (9 \<le> n \<and> n \<le> 13) \<or> (28 \<le> n \<and> n \<le> 32) \<or> n = 133 \<or> n = 160)"

definition strip :: "string \<Rightarrow> string" where
  "strip s = rev (dropWhile py_isspace (rev (dropWhile py_isspace s)))"

fun join :: "string \<Rightarrow> string list \<Rightarrow> string" where
  "join sep [] = []"
| "join sep [x] = x"
| "join sep (x # y # ys) = x @ sep @ join sep (y # ys)"

text \<open>\<^verbatim>\<open>sep.join(parts)\<close> on values: an item that is not a string raises \<^verbatim>\<open>TypeError\<close>.\<close>

fun str_items :: "json list \<Rightarrow> error + string list" where
  "str_items [] = Inr []"
| "str_items (JStr s # vs) = ebind (str_items vs) (\<lambda>ss. Inr (s # ss))"
| "str_items (v # vs) = Inl TypeError"

definition py_join :: "string \<Rightarrow> json list \<Rightarrow> error + string" where
  "py_join sep vs = ebind (str_items vs) (\<lambda>ss. Inr (join sep ss))"

section \<open>What the conversion takes from outside\<close>

text \<open>
  The agent's configured model name (\<^verbatim>\<open>self.model_name\<close>), the standard library's
  \<^verbatim>\<open>json.dumps(v)\<close> and \<^verbatim>\<open>json.dumps(v, ensure_ascii=False)\<close>, and the random
  identifiers: \<open>uuid_hex k\<close> is the 32 hexadecimal digits of the \<open>k\<close>-th call of
  \<^verbatim>\<open>uuid.uuid4()\<close> during one conversion.
\<close>

record env =
  self_model_name :: json
  json_dumps :: "json \<Rightarrow> string"
  json_dumps_unicode :: "json \<Rightarrow> string"
  uuid_hex :: "nat \<Rightarrow> string"

text \<open>\<^verbatim>\<open>str(uuid.uuid4())\<close> and \<^verbatim>\<open>f"call_{uuid.uuid4().hex[:8]}"\<close>.\<close>

definition uuid_str :: "string \<Rightarrow> string" where
  "uuid_str h =
     take 8 h @ ''-'' @ take 4 (drop 8 h) @ ''-'' @ take 4 (drop 12 h) @ ''-'' @
     take 4 (drop 16 h) @ ''-'' @ drop 20 h"

definition fresh_call_id :: "env \<Rightarrow> nat \<Rightarrow> json" where
  "fresh_call_id env k = JStr (''call_'' @ take 8 (uuid_hex env k))"

text \<open>
  \<^verbatim>\<open>_stringify\<close>: a string is returned as it is, anything else is serialised. Every value
  of the record is serialisable, so the \<^verbatim>\<open>str(value)\<close> fallback is never taken.
\<close>

definition stringify :: "env \<Rightarrow> json \<Rightarrow> string" where
  "stringify env v = (case v of JStr s \<Rightarrow> s | _ \<Rightarrow> json_dumps_unicode env v)"

section \<open>The trajectory data model\<close>

text \<open>
  Modelled from the spec: the classes \<^verbatim>\<open>Metrics\<close>, \<^verbatim>\<open>ToolCall\<close>,
  \<^verbatim>\<open>ObservationResult\<close>, \<^verbatim>\<open>Observation\<close>, \<^verbatim>\<open>Step\<close>, \<^verbatim>\<open>FinalMetrics\<close>,
  \<^verbatim>\<open>Agent\<close> and \<^verbatim>\<open>Trajectory\<close> are imported from another package and are not
  part of the sources. They are plain records here: a constructor stores the values it
  is given, an optional field that is not given is \<^verbatim>\<open>None\<close>, and an instance is true
  in a truth test.
\<close>

record metrics =
  prompt_tokens :: json
  completion_tokens :: json
  cached_tokens :: json
  cost_usd :: json
  metrics_extra :: "dict option"

record tool_call =
  tool_call_id :: json
  function_name :: json
  call_arguments :: dict

record observation_result =
  source_call_id :: json
  result_content :: "string option"
  subagent_trajectory_ref :: json

record observation =
  obs_results :: "observation_result list"

record step =
  step_id :: nat
  step_timestamp :: json
  step_source :: string
  step_message :: string
  step_reasoning_content :: "string option"
  step_model_name :: json
  step_tool_calls :: "tool_call list option"
  step_observation :: "observation option"
  step_metrics :: "metrics option"
  step_extra :: "dict option"

record final_metrics =
  total_prompt_tokens :: "int option"
  total_completion_tokens :: "int option"
  total_cached_tokens :: "int option"
  total_cost_usd :: json
  total_steps :: nat

record agent =
  agent_name :: string
  agent_version :: string
  agent_model_name :: json

record trajectory =
  traj_schema_version :: string
  traj_session_id :: json
  traj_agent :: agent
  traj_steps :: "step list"
  traj_final_metrics :: final_metrics

section \<open>Normalized events\<close>

text \<open>
  The normalizer builds two shapes of event dictionary, each with a fixed set of keys.
  A key read with \<^verbatim>\<open>event.get\<close> that the normalizer has not written is \<^verbatim>\<open>None\<close>:
  the \<^verbatim>\<open>output\<close> of a call that has no result yet.
\<close>

record message_event =
  me_timestamp :: json
  me_role :: json
  me_text :: string
  me_reasoning :: "string option"
  me_metrics :: "metrics option"
  me_extra :: "dict option"
  me_model_name :: json

record tool_call_event =
  tc_timestamp :: json
  tc_call_id :: json
  tc_tool_name :: json
  tc_arguments :: dict
  tc_raw_arguments :: json
  tc_reasoning :: "string option"
  tc_status :: json
  tc_message :: "string option"
  tc_extra :: "dict option"
  tc_metrics :: "metrics option"
  tc_model_name :: json
  tc_output :: "string option"

datatype event = Message message_event | ToolCall tool_call_event

text \<open>The metrics that an event carries.\<close>

fun event_metrics :: "event \<Rightarrow> metrics option" where
  "event_metrics (Message ev) = me_metrics ev"
| "event_metrics (ToolCall ev) = tc_metrics ev"

section \<open>Step builder\<close>

text \<open>\<^verbatim>\<open>if s:\<close> on an optional string and on an optional dictionary.\<close>

definition nonempty :: "'a list option \<Rightarrow> bool" where
  "nonempty x = (case x of None \<Rightarrow> False | Some xs \<Rightarrow> xs \<noteq> [])"

definition source_of_role :: "json \<Rightarrow> string" where
  "source_of_role role =
     (if role = JStr ''assistant'' then ''agent''
      else if role = JStr ''user'' then ''user''
      else ''system'')"

definition message_step :: "env \<Rightarrow> message_event \<Rightarrow> nat \<Rightarrow> step" where
  "message_step env ev sid =
     (let src = source_of_role (me_role ev);
          st = \<lparr>step_id = sid, step_timestamp = me_timestamp ev, step_source = src,
                step_message = me_text ev, step_reasoning_content = None, step_model_name = JNull,
                step_tool_calls = None, step_observation = None, step_metrics = None, step_extra = None\<rparr>;
          st = (if src = ''agent'' then
                  (let st = (if nonempty (me_reasoning ev)
                             then st\<lparr>step_reasoning_content := me_reasoning ev\<rparr> else st)
                   in if truthy (me_model_name ev) then st\<lparr>step_model_name := me_model_name ev\<rparr>
                      else if truthy (self_model_name env)
                      then st\<lparr>step_model_name := self_model_name env\<rparr>
                      else st)
                else st);
          st = (if me_metrics ev \<noteq> None then st\<lparr>step_metrics := me_metrics ev\<rparr> else st);
          st = (if nonempty (me_extra ev) then st\<lparr>step_extra := me_extra ev\<rparr> else st)
      in st)"

text \<open>
  The step's \<^verbatim>\<open>extra\<close> of a tool call: the event's own entries first, then
  \<^verbatim>\<open>metadata\<close>, \<^verbatim>\<open>raw_arguments\<close> and \<^verbatim>\<open>status\<close> where they are not \<^verbatim>\<open>None\<close>
  and the key is still free. The normalizer writes no \<^verbatim>\<open>metadata\<close> key.
\<close>

definition tool_call_extra :: "tool_call_event \<Rightarrow> dict" where
  "tool_call_extra ev =
     fold (\<lambda>kv x. if snd kv \<noteq> JNull then dict_setdefault x (fst kv) (snd kv) else x)
       [(''metadata'', JNull), (''raw_arguments'', tc_raw_arguments ev),
        (''status'', tc_status ev)]
       (case tc_extra ev of None \<Rightarrow> [] | Some x \<Rightarrow> x)"

definition tool_call_message :: "tool_call_event \<Rightarrow> error + string" where
  "tool_call_message ev =
     (let summary_parts = filter truthy [tc_tool_name ev, tc_call_id ev];
          executed =
            ebind (if summary_parts \<noteq> [] then py_join '' '' summary_parts
                   else Inr ''Tool call'')
              (\<lambda>summary. Inr (''Executed '' @ summary))
      in case tc_message ev of
           None \<Rightarrow> executed
         | Some m \<Rightarrow> if m \<noteq> [] then Inr m else executed)"

definition tool_call_step :: "env \<Rightarrow> tool_call_event \<Rightarrow> nat \<Rightarrow> error + step" where
  "tool_call_step env ev sid =
     (let call_id = tc_call_id ev; tool_name = tc_tool_name ev in
      if \<not> truthy call_id \<or> \<not> truthy tool_name then Inl ValueError
      else
        (let model = py_or (tc_model_name ev) (self_model_name env);
             call = \<lparr>tool_call_id = call_id, function_name = tool_name,
                     call_arguments = tc_arguments ev\<rparr>;
             observation_result = \<lparr>source_call_id = call_id, result_content = tc_output ev,
                     subagent_trajectory_ref = JNull\<rparr>;
             obs = (if tc_output ev \<noteq> None then Some \<lparr>obs_results = [observation_result]\<rparr>
                    else None);
             ex = tool_call_extra ev
         in ebind (tool_call_message ev) (\<lambda>msg.
              (let st = \<lparr>step_id = sid, step_timestamp = tc_timestamp ev, step_source = ''agent'',
                         step_message = msg, step_reasoning_content = None, step_model_name = JNull,
                         step_tool_calls = Some [call], step_observation = obs, step_metrics = None,
                         step_extra = None\<rparr>;
                   st = (if truthy model then st\<lparr>step_model_name := model\<rparr> else st);
                   st = (if nonempty (tc_reasoning ev)
                         then st\<lparr>step_reasoning_content := tc_reasoning ev\<rparr> else st);
                   st = (if tc_metrics ev \<noteq> None then st\<lparr>step_metrics := tc_metrics ev\<rparr> else st);
                   st = (if ex \<noteq> [] then st\<lparr>step_extra := Some ex\<rparr> else st)
               in Inr st))))"

text \<open>
  \<^verbatim>\<open>_convert_event_to_step\<close>. The event type has the two kinds the normalizer
  produces, so the final \<^verbatim>\<open>Unsupported event kind\<close> branch has no input here.
\<close>

fun convert_event_to_step :: "env \<Rightarrow> event \<Rightarrow> nat \<Rightarrow> error + step" where
  "convert_event_to_step env (Message ev) sid = Inr (message_step env ev sid)"
| "convert_event_to_step env (ToolCall ev) sid = tool_call_step env ev sid"

section \<open>Content block extractor\<close>

text \<open>
  One block of a content list, added to the three accumulators \<^verbatim>\<open>text_parts\<close>,
  \<^verbatim>\<open>reasoning_parts\<close> and \<^verbatim>\<open>tool_blocks\<close>. The membership test
  \<^verbatim>\<open>block_type in {"thinking", "reasoning", "analysis"}\<close> hashes the block type.
\<close>

definition extract_block ::
  "env \<Rightarrow> json \<Rightarrow> string list \<times> string list \<times> dict list \<Rightarrow>
   error + (string list \<times> string list \<times> dict list)" where
  "extract_block env block acc =
     (case acc of (text_parts, reasoning_parts, tool_blocks) \<Rightarrow>
        (case block of
           JDict b \<Rightarrow>
             (let block_type = dict_get b ''type'' in
              if block_type = JStr ''tool_use''
              then Inr (text_parts, reasoning_parts, tool_blocks @ [b])
              else if \<not> hashable block_type then Inl TypeError
              else if block_type = JStr ''thinking'' \<or> block_type = JStr ''reasoning''
                      \<or> block_type = JStr ''analysis''
              then (case dict_get b ''text'' of
                      JStr t \<Rightarrow> Inr (text_parts, reasoning_parts @ [strip t], tool_blocks)
                    | tv \<Rightarrow> Inr (text_parts, reasoning_parts @ [stringify env tv], tool_blocks))
              else (case (block_type = JStr ''code'', dict_get b ''code'') of
                      (True, JStr c) \<Rightarrow> Inr (text_parts @ [c], reasoning_parts, tool_blocks)
                    | _ \<Rightarrow>
                       (case dict_get b ''text'' of
                          JStr t \<Rightarrow> Inr (text_parts @ [t], reasoning_parts, tool_blocks)
                        | _ \<Rightarrow> Inr (text_parts @ [stringify env (JDict b)], reasoning_parts,
                                    tool_blocks))))
         | _ \<Rightarrow> Inr (text_parts @ [stringify env block], reasoning_parts, tool_blocks)))"

fun extract_blocks ::
  "env \<Rightarrow> json list \<Rightarrow> string list \<times> string list \<times> dict list \<Rightarrow>
   error + (string list \<times> string list \<times> dict list)" where
  "extract_blocks env [] acc = Inr acc"
| "extract_blocks env (block # blocks) acc =
     ebind (extract_block env block acc) (extract_blocks env blocks)"

text \<open>
  \<^verbatim>\<open>"\n\n".join(part.strip() for part in parts if part and str(part).strip())\<close>
\<close>

definition join_parts :: "string list \<Rightarrow> string" where
  "join_parts parts =
     join [CHR 0x0A, CHR 0x0A] (map strip (filter (\<lambda>part. part \<noteq> [] \<and> strip part \<noteq> []) parts))"

text \<open>
  The accumulators for a content that is not a string: the blocks of a list, nothing for
  \<^verbatim>\<open>None\<close>, and otherwise the serialised content as the one text part.
\<close>

definition content_parts ::
  "env \<Rightarrow> json \<Rightarrow> error + (string list \<times> string list \<times> dict list)" where
  "content_parts env content =
     (case content of
        JList blocks \<Rightarrow> extract_blocks env blocks ([], [], [])
      | JNull \<Rightarrow> Inr ([], [], [])
      | _ \<Rightarrow> Inr ([stringify env content], [], []))"

definition extract_text_reasoning_tool_uses ::
  "env \<Rightarrow> json \<Rightarrow> error + (string \<times> string option \<times> dict list)" where
  "extract_text_reasoning_tool_uses env content =
     (case content of
        JStr s \<Rightarrow> Inr (strip s, None, [])
      | _ \<Rightarrow>
         ebind (content_parts env content) (\<lambda>acc.
           case acc of (text_parts, reasoning_parts, tool_blocks) \<Rightarrow>
             (let reasoning = join_parts reasoning_parts in
              Inr (join_parts text_parts,
                   if reasoning \<noteq> [] then Some reasoning else None,
                   tool_blocks))))"

section \<open>Metrics extractor\<close>

definition build_metrics :: "json \<Rightarrow> error + metrics option" where
  "build_metrics usage =
     (case usage of
        JDict u \<Rightarrow>
          (let cached = dict_get_default u ''cache_read_input_tokens'' (JInt 0) in
           ebind (py_add (dict_get_default u ''input_tokens'' (JInt 0)) cached) (\<lambda>prompt.
             (let completion = dict_get_default u ''output_tokens'' (JInt 0);
                  ex = filter (\<lambda>kv. fst kv \<noteq> ''input_tokens'' \<and> fst kv \<noteq> ''output_tokens'') u
              in if prompt = JNull \<and> completion = JNull \<and> cached = JNull \<and> ex = []
                 then Inr None
                 else Inr (Some \<lparr>prompt_tokens = prompt, completion_tokens = completion,
                                  cached_tokens = cached, cost_usd = JNull,
                                  metrics_extra = (if ex \<noteq> [] then Some ex else None)\<rparr>))))
      | _ \<Rightarrow> Inr None)"

section \<open>Event normalizer\<close>

text \<open>
  The state of the walk over the raw messages: the events emitted so far, the pending
  tool calls by call identifier (a dictionary, in insertion order) and the number of
  random identifiers drawn so far.
\<close>

record norm_state =
  normalized_events :: "event list"
  pending_calls :: "(json \<times> tool_call_event) list"
  uuid_count :: nat

text \<open>
  Dictionary keys compare as Python values: \<^verbatim>\<open>True\<close> and \<^verbatim>\<open>1\<close> are the same key.
\<close>

fun key_norm :: "json \<Rightarrow> json" where
  "key_norm (JBool b) = JInt (if b then 1 else 0)"
| "key_norm v = v"

subsection \<open>Messages\<close>

text \<open>
  \<^verbatim>\<open>msg_type = msg.get("type") or list(msg.keys())[0] if msg else None\<close> and
  \<^verbatim>\<open>msg_content = msg.get(msg_type, msg) if msg_type else msg\<close>. The keys of a message
  are strings, so a number as message type finds no entry, and a list or a dictionary as
  message type cannot be looked up.
\<close>

definition msg_type_of :: "dict \<Rightarrow> json" where
  "msg_type_of msg =
     (case msg of [] \<Rightarrow> JNull | kv # _ \<Rightarrow> py_or (dict_get msg ''type'') (JStr (fst kv)))"

definition msg_content_of :: "dict \<Rightarrow> json \<Rightarrow> error + json" where
  "msg_content_of msg msg_type =
     (if truthy msg_type then
        (case msg_type of
           JStr k \<Rightarrow> Inr (dict_get_default msg k (JDict msg))
         | _ \<Rightarrow> if hashable msg_type then Inr (JDict msg) else Inl TypeError)
      else Inr (JDict msg))"

text \<open>
  The shape of a message, as the chain \<^verbatim>\<open>if ... elif ...\<close> of the walk decides it: a
  text message with its \<^verbatim>\<open>content_data\<close>, a tool result with its \<^verbatim>\<open>tool_data\<close>, or
  neither. The text shape is probed first.
\<close>

datatype msg_shape = TextMessage dict | ToolResult dict | Unrecognized

definition classify :: "dict \<Rightarrow> error + msg_shape" where
  "classify msg =
     (let msg_type = msg_type_of msg in
      ebind (msg_content_of msg msg_type) (\<lambda>msg_content.
        (let inner = (case msg_content of JDict c \<Rightarrow> c | _ \<Rightarrow> msg);
             has = (\<lambda>k. case msg_content of JDict c \<Rightarrow> dict_has c k | _ \<Rightarrow> False)
         in if msg_type = JStr ''text'' \<or> has ''content'' then Inr (TextMessage inner)
            else if msg_type = JStr ''tool'' \<or> has ''tool_call_id'' then Inr (ToolResult inner)
            else Inr Unrecognized)))"

subsection \<open>Text messages\<close>

definition tool_block_call_id :: "env \<Rightarrow> dict \<Rightarrow> nat \<Rightarrow> json \<times> nat" where
  "tool_block_call_id env tool_block k =
     (let call_id = py_or (dict_get tool_block ''id'') (dict_get tool_block ''tool_call_id'')
      in if \<not> truthy call_id then (fresh_call_id env k, Suc k) else (call_id, k))"

text \<open>The pending event of one tool-use block.\<close>

definition tool_block_event ::
  "json \<Rightarrow> string option \<Rightarrow> dict \<Rightarrow> json \<Rightarrow> metrics option \<Rightarrow> json \<Rightarrow> dict \<Rightarrow>
   tool_call_event" where
  "tool_block_event ts reasoning ex model mtr call_id tool_block =
     (let raw_arguments =
            py_or (dict_get tool_block ''input'') (dict_get tool_block ''arguments'');
          args = (case raw_arguments of JDict a \<Rightarrow> a | _ \<Rightarrow> [(''input'', raw_arguments)])
      in \<lparr>tc_timestamp = ts,
          tc_call_id = call_id,
          tc_tool_name = py_or (dict_get tool_block ''name'') (JStr []),
          tc_arguments = args,
          tc_raw_arguments = raw_arguments,
          tc_reasoning = reasoning,
          tc_status = dict_get tool_block ''status'',
          tc_message = None,
          tc_extra = (if ex \<noteq> [] then Some ex else None),
          tc_metrics = mtr,
          tc_model_name = model,
          tc_output = None\<rparr>)"

text \<open>
  The loop over the tool-use blocks of one message, with its index \<open>idx\<close> and the
  variable \<^verbatim>\<open>metrics\<close>, which the first block takes. It yields the events with their call
  identifiers, in the order in which the loop stores them.
\<close>

fun tool_call_events ::
  "env \<Rightarrow> json \<Rightarrow> string option \<Rightarrow> dict \<Rightarrow> json \<Rightarrow> metrics option \<Rightarrow> nat \<Rightarrow> dict list \<Rightarrow>
   nat \<Rightarrow> (json \<times> tool_call_event) list \<times> nat" where
  "tool_call_events env ts reasoning ex model mtr idx [] k = ([], k)"
| "tool_call_events env ts reasoning ex model mtr idx (tool_block # blocks) k =
     (case tool_block_call_id env tool_block k of (call_id, k') \<Rightarrow>
        (let taken = (idx = 0 \<and> mtr \<noteq> None);
             ev = tool_block_event ts reasoning ex model (if taken then mtr else None)
                    call_id tool_block
         in case tool_call_events env ts reasoning ex model (if taken then None else mtr)
                   (Suc idx) blocks k' of
              (calls, k'') \<Rightarrow> ((call_id, ev) # calls, k'')))"

text \<open>
  The call identifiers that the loop gives to the tool-use blocks of one message, in order:
  the block's own identifier, or a random one for a block that has none.
\<close>

fun tool_block_call_ids :: "env \<Rightarrow> dict list \<Rightarrow> nat \<Rightarrow> json list" where
  "tool_block_call_ids env [] k = []"
| "tool_block_call_ids env (tool_block # blocks) k =
     (case tool_block_call_id env tool_block k of
        (call_id, k') \<Rightarrow> call_id # tool_block_call_ids env blocks k')"

text \<open>\<^verbatim>\<open>pending_calls[call_id] = ...\<close> for each event of the loop, in order.\<close>

fun store_calls ::
  "(json \<times> tool_call_event) list \<Rightarrow> (json \<times> tool_call_event) list \<Rightarrow>
   error + (json \<times> tool_call_event) list" where
  "store_calls [] pending = Inr pending"
| "store_calls ((call_id, ev) # calls) pending =
     (if hashable call_id then store_calls calls (dict_set pending (key_norm call_id) ev)
      else Inl TypeError)"

text \<open>The free-standing message event of a text message, if it has one.\<close>

definition text_message_event ::
  "json \<Rightarrow> json \<Rightarrow> string \<Rightarrow> string option \<Rightarrow> dict list \<Rightarrow> metrics option \<Rightarrow> dict \<Rightarrow> json \<Rightarrow>
   message_event option" where
  "text_message_event ts role txt reasoning tool_blocks mtr ex model =
     (if txt \<noteq> [] \<or> nonempty reasoning \<or> tool_blocks = [] then
        Some \<lparr>me_timestamp = ts,
              me_role = role,
              me_text = txt,
              me_reasoning = (if role = JStr ''assistant'' then reasoning else None),
              me_metrics = mtr,
              me_extra = (if ex \<noteq> [] then Some ex else None),
              me_model_name = model\<rparr>
      else None)"

text \<open>
  All events of one text message: the message event, if any, and the tool-call events.
  The metrics go to the message event when there is one, and are then cleared before
  the loop over the tool-use blocks.
\<close>

definition text_events ::
  "env \<Rightarrow> json \<Rightarrow> json \<Rightarrow> dict \<Rightarrow> nat \<Rightarrow>
   error + (message_event option \<times> (json \<times> tool_call_event) list \<times> nat)" where
  "text_events env default_model_name ts content_data k =
     (let role = dict_get_default content_data ''role'' (JStr ''user'');
          content = dict_get_default content_data ''content'' (JStr [])
      in ebind (extract_text_reasoning_tool_uses env content) (\<lambda>extracted.
           case extracted of (txt, reasoning, tool_blocks) \<Rightarrow>
             (let usage = dict_get content_data ''usage'' in
              ebind (if truthy usage then build_metrics usage else Inr None) (\<lambda>mtr.
                (let ex = (if truthy (dict_get content_data ''model'')
                           then [(''model'', dict_get content_data ''model'')] else []);
                     model = py_or (dict_get content_data ''model'') default_model_name;
                     msg_event =
                       text_message_event ts role txt reasoning tool_blocks mtr ex model;
                     mtr' = (if msg_event \<noteq> None then None else mtr)
                 in case tool_call_events env ts reasoning ex model mtr' 0 tool_blocks k of
                      (calls, k') \<Rightarrow> Inr (msg_event, calls, k'))))))"

definition handle_text ::
  "env \<Rightarrow> json \<Rightarrow> json \<Rightarrow> dict \<Rightarrow> norm_state \<Rightarrow> error + norm_state" where
  "handle_text env default_model_name ts content_data st =
     ebind (text_events env default_model_name ts content_data (uuid_count st)) (\<lambda>produced.
       case produced of (msg_event, calls, k) \<Rightarrow>
         ebind (store_calls calls (pending_calls st)) (\<lambda>pending.
           Inr \<lparr>normalized_events =
                  normalized_events st @
                  (case msg_event of None \<Rightarrow> [] | Some ev \<Rightarrow> [Message ev]),
                pending_calls = pending,
                uuid_count = k\<rparr>))"

subsection \<open>Tool results\<close>

text \<open>The text of a tool output; \<^verbatim>\<open>None\<close> for an output that is false in a truth test.\<close>

definition output_part :: "json \<Rightarrow> json list" where
  "output_part v =
     (case v of
        JDict d \<Rightarrow>
          (if dict_get d ''type'' = JStr ''text'' then [dict_get_default d ''content'' (JStr [])]
           else [])
      | JStr s \<Rightarrow> [JStr s]
      | _ \<Rightarrow> [])"

definition format_output :: "env \<Rightarrow> json \<Rightarrow> error + string option" where
  "format_output env output =
     (if truthy output then
        (case output of
           JDict d \<Rightarrow>
             ebind (py_iter (dict_get_default d ''values'' (JList []))) (\<lambda>vals.
               (let output_parts = concat (map output_part vals) in
                if output_parts \<noteq> []
                then ebind (py_join [CHR 0x0A] output_parts) (\<lambda>s. Inr (Some s))
                else Inr (Some (json_dumps env output))))
         | JStr s \<Rightarrow> Inr (Some s)
         | _ \<Rightarrow> Inr (Some (stringify env output)))
      else Inr None)"

text \<open>The event made up for a result whose call identifier is not pending.\<close>

definition fabricated_call :: "json \<Rightarrow> json \<Rightarrow> dict \<Rightarrow> json \<Rightarrow> tool_call_event" where
  "fabricated_call ts call_id tool_data default_model_name =
     \<lparr>tc_timestamp = ts,
      tc_call_id = call_id,
      tc_tool_name = py_or (dict_get tool_data ''name'') (JStr []),
      tc_arguments = [],
      tc_raw_arguments = JNull,
      tc_reasoning = None,
      tc_status = JNull,
      tc_message = None,
      tc_extra = None,
      tc_metrics = None,
      tc_model_name = default_model_name,
      tc_output = None\<rparr>"

text \<open>
  \<^verbatim>\<open>pending_calls.pop(call_id, None) if call_id else None\<close>, then the made-up event
  when nothing was popped; a random identifier is drawn only when the result has none.
\<close>

definition resolve_call ::
  "env \<Rightarrow> json \<Rightarrow> json \<Rightarrow> dict \<Rightarrow> json \<Rightarrow> norm_state \<Rightarrow>
   error + (tool_call_event \<times> (json \<times> tool_call_event) list \<times> nat)" where
  "resolve_call env default_model_name ts tool_data call_id st =
     (if truthy call_id then
        (if hashable call_id then
           (case map_of (pending_calls st) (key_norm call_id) of
              Some call_info \<Rightarrow>
                Inr (call_info,
                     filter (\<lambda>kv. fst kv \<noteq> key_norm call_id) (pending_calls st),
                     uuid_count st)
            | None \<Rightarrow>
                Inr (fabricated_call ts call_id tool_data default_model_name,
                     pending_calls st, uuid_count st))
         else Inl TypeError)
      else
        Inr (fabricated_call ts (fresh_call_id env (uuid_count st)) tool_data default_model_name,
             pending_calls st, Suc (uuid_count st)))"

definition handle_tool ::
  "env \<Rightarrow> json \<Rightarrow> json \<Rightarrow> dict \<Rightarrow> norm_state \<Rightarrow> error + norm_state" where
  "handle_tool env default_model_name ts tool_data st =
     (let call_id = py_or (dict_get tool_data ''tool_call_id'') (dict_get tool_data ''id'');
          output = py_or (dict_get tool_data ''output'') (dict_get tool_data ''content'')
      in ebind (resolve_call env default_model_name ts tool_data call_id st) (\<lambda>resolved.
           case resolved of (call_info, pending, k) \<Rightarrow>
             ebind (format_output env output) (\<lambda>output_text.
               Inr \<lparr>normalized_events =
                      normalized_events st @
                      [ToolCall (call_info\<lparr>tc_output := output_text,
                                           tc_timestamp := py_or (tc_timestamp call_info) ts\<rparr>)],
                    pending_calls = pending,
                    uuid_count = k\<rparr>)))"

subsection \<open>The walk\<close>

text \<open>
  One raw message. An entry that is not a dictionary is skipped; so is a dictionary that
  is neither a text message nor a tool result.
\<close>

definition handle_message :: "env \<Rightarrow> json \<Rightarrow> norm_state \<Rightarrow> json \<Rightarrow> error + norm_state" where
  "handle_message env default_model_name st msg =
     (case msg of
        JDict m \<Rightarrow>
          ebind (classify m) (\<lambda>shape.
            (let ts = dict_get m ''timestamp'' in
             case shape of
               TextMessage content_data \<Rightarrow> handle_text env default_model_name ts content_data st
             | ToolResult tool_data \<Rightarrow> handle_tool env default_model_name ts tool_data st
             | Unrecognized \<Rightarrow> Inr st))
      | _ \<Rightarrow> Inr st)"

fun walk_messages :: "env \<Rightarrow> json \<Rightarrow> json list \<Rightarrow> norm_state \<Rightarrow> error + norm_state" where
  "walk_messages env default_model_name [] st = Inr st"
| "walk_messages env default_model_name (msg # msgs) st =
     ebind (handle_message env default_model_name st msg)
       (walk_messages env default_model_name msgs)"

text \<open>The first message that declares a model as a non-empty string names the default.\<close>

fun find_model :: "json \<Rightarrow> json list \<Rightarrow> json" where
  "find_model default_model_name [] = default_model_name"
| "find_model default_model_name (JDict m # msgs) =
     (case dict_get m ''model'' of
        JStr s \<Rightarrow> if s \<noteq> [] then JStr s else find_model default_model_name msgs
      | _ \<Rightarrow> find_model default_model_name msgs)"
| "find_model default_model_name (msg # msgs) = find_model default_model_name msgs"

section \<open>Steps and trajectory\<close>

text \<open>
  The default model of an agent step that has none:
  \<^verbatim>\<open>if step.source == "agent" and not step.model_name and default_model_name\<close>.
\<close>

definition fill_model :: "json \<Rightarrow> step \<Rightarrow> step" where
  "fill_model default_model_name st =
     (if step_source st = ''agent'' \<and> \<not> truthy (step_model_name st) \<and> truthy default_model_name
      then st\<lparr>step_model_name := default_model_name\<rparr> else st)"

text \<open>
  The loop \<^verbatim>\<open>for idx, norm_event in enumerate(normalized_events, start=1)\<close>: a
  \<^verbatim>\<open>ValueError\<close> skips the event and the loop goes on with the next index; any other
  exception leaves the conversion.
\<close>

fun build_steps :: "env \<Rightarrow> json \<Rightarrow> nat \<Rightarrow> event list \<Rightarrow> error + step list" where
  "build_steps env default_model_name idx [] = Inr []"
| "build_steps env default_model_name idx (norm_event # evs) =
     (case convert_event_to_step env norm_event idx of
        Inl ValueError \<Rightarrow> build_steps env default_model_name (Suc idx) evs
      | Inl e \<Rightarrow> Inl e
      | Inr st \<Rightarrow>
          ebind (build_steps env default_model_name (Suc idx) evs) (\<lambda>sts.
            Inr (fill_model default_model_name st # sts)))"

text \<open>
  The values of one metrics field over the steps that have metrics and report the field,
  and their total: \<^verbatim>\<open>sum(values) if values else None\<close>.
\<close>

definition reported :: "(metrics \<Rightarrow> json) \<Rightarrow> step list \<Rightarrow> json list" where
  "reported field sts =
     List.map_filter
       (\<lambda>st. case step_metrics st of
                None \<Rightarrow> None
              | Some m \<Rightarrow> if field m \<noteq> JNull then Some (field m) else None)
       sts"

definition total_of :: "json list \<Rightarrow> error + int option" where
  "total_of vals = (if vals \<noteq> [] then ebind (py_sum vals) (\<lambda>n. Inr (Some n)) else Inr None)"

text \<open>The run's cost, read under \<^verbatim>\<open># Get cost from conversation metrics\<close>.\<close>

definition total_cost_of :: "dict \<Rightarrow> error + json" where
  "total_cost_of conversation_data =
     (let conv_metrics = dict_get_default conversation_data ''metrics'' (JDict []) in
      if truthy conv_metrics then
        (let accumulated_usage = dict_get conversation_data ''accumulated_usage'' in
         if truthy accumulated_usage then
           (case accumulated_usage of
              JDict a \<Rightarrow> Inr (dict_get a ''cost'')
            | _ \<Rightarrow> Inl AttributeError)
         else Inr JNull)
      else Inr JNull)"

text \<open>
  The conversion once the messages are at hand. The default of
  \<^verbatim>\<open>conversation_data.get("id", str(uuid.uuid4()))\<close> is evaluated first, so the session
  identifier takes the random identifier number 0.
\<close>

definition trajectory_of_messages :: "env \<Rightarrow> dict \<Rightarrow> json list \<Rightarrow> error + trajectory option" where
  "trajectory_of_messages env conversation_data msgs =
     (let sid = dict_get_default conversation_data ''id'' (JStr (uuid_str (uuid_hex env 0)));
          default_model_name = find_model (self_model_name env) msgs
      in ebind (walk_messages env default_model_name msgs
                  \<lparr>normalized_events = [], pending_calls = [], uuid_count = 1\<rparr>) (\<lambda>st.
         ebind (build_steps env default_model_name 1
                  (normalized_events st @ map (\<lambda>kv. ToolCall (snd kv)) (pending_calls st))) (\<lambda>sts.
           if sts = [] then Inr None
           else
             ebind (total_of (reported prompt_tokens sts)) (\<lambda>total_prompt.
             ebind (total_of (reported completion_tokens sts)) (\<lambda>total_completion.
             ebind (total_of (reported cached_tokens sts)) (\<lambda>total_cached.
             ebind (total_cost_of conversation_data) (\<lambda>total_cost.
               Inr (Some
                 \<lparr>traj_schema_version = ''ATIF-v1.2'',
                  traj_session_id = sid,
                  traj_agent = \<lparr>agent_name = ''forge'', agent_version = ''unknown'',
                                agent_model_name = default_model_name\<rparr>,
                  traj_steps = sts,
                  traj_final_metrics =
                    \<lparr>total_prompt_tokens = total_prompt,
                     total_completion_tokens = total_completion,
                     total_cached_tokens = total_cached,
                     total_cost_usd = total_cost,
                     total_steps = length sts\<rparr>\<rparr>))))))))"

text \<open>
  \<^verbatim>\<open>_convert_forge_conversation_to_trajectory\<close>. A context or an accumulated usage that
  is true in a truth test and is not a dictionary has no \<^verbatim>\<open>get\<close>.
\<close>

definition convert_forge_conversation_to_trajectory ::
  "env \<Rightarrow> dict \<Rightarrow> error + trajectory option" where
  "convert_forge_conversation_to_trajectory env conversation_data =
     (let ctx = dict_get conversation_data ''context'' in
      if \<not> truthy ctx then Inr None
      else
        (case ctx of
           JDict c \<Rightarrow>
             (let messages = dict_get_default c ''messages'' (JList []) in
              if \<not> truthy messages then Inr None
              else ebind (py_iter messages) (trajectory_of_messages env conversation_data))
         | _ \<Rightarrow> Inl AttributeError))"

section \<open>An environment for the examples\<close>

text \<open>
  The examples run the conversion with no configured model name, a serialiser that prints
  a fixed text, and one fixed random identifier.
\<close>

definition env0 :: env where
  "env0 =
     \<lparr>self_model_name = JNull,
      json_dumps = (\<lambda>v. ''<json>''),
      json_dumps_unicode = (\<lambda>v. ''<json>''),
      uuid_hex = (\<lambda>k. ''0123456789abcdef0123456789abcdef'')\<rparr>"

text \<open>
  A conversation with a user message and two assistant messages that carry usage; the
  second usage reports no completion count. It has a cost in its accumulated usage and
  a top-level \<^verbatim>\<open>metrics\<close> entry.
\<close>

definition usage_messages :: "json list" where
  "usage_messages =
     [JDict [(''text'', JDict [(''role'', JStr ''user''), (''content'', JStr ''hi'')])],
      JDict [(''text'', JDict [(''role'', JStr ''assistant''), (''content'', JStr ''one''),
               (''usage'', JDict [(''input_tokens'', JInt 10), (''output_tokens'', JInt 5),
                                  (''cache_read_input_tokens'', JInt 3)])])],
      JDict [(''text'', JDict [(''role'', JStr ''assistant''), (''content'', JStr ''two''),
               (''usage'', JDict [(''input_tokens'', JInt 1), (''output_tokens'', JNull)])])]]"

definition usage_record :: dict where
  "usage_record =
     [(''id'', JStr ''run-1''),
      (''context'', JDict [(''messages'', JList usage_messages)]),
      (''metrics'', JDict [(''started_at'', JStr ''now'')]),
      (''accumulated_usage'', JDict [(''cost'', JInt 5)])]"

text \<open>The same conversation without the top-level \<^verbatim>\<open>metrics\<close> entry.\<close>

definition usage_record_without_metrics :: dict where
  "usage_record_without_metrics =
     [(''id'', JStr ''run-1''),
      (''context'', JDict [(''messages'', JList usage_messages)]),
      (''accumulated_usage'', JDict [(''cost'', JInt 5)])]"

text \<open>
  Example messages: a tool result whose call identifier is not pending and that names no
  tool, the same result with a tool name, a user message, a tool call of an assistant
  message, and the result of that call with an empty output. \<open>record_of\<close> wraps
  messages into a conversation record.
\<close>

definition unnamed_result :: dict where
  "unnamed_result =
     [(''tool'', JDict [(''tool_call_id'', JStr ''x''), (''output'', JStr ''o'')])]"


definition user_hi :: dict where
  "user_hi = [(''text'', JDict [(''role'', JStr ''user''), (''content'', JStr ''hi'')])]"



definition record_of :: "dict list \<Rightarrow> dict" where
  "record_of msgs =
     [(''id'', JStr ''run-1''), (''context'', JDict [(''messages'', JList (map JDict msgs))])]"

text \<open>
  The content data of two assistant messages with usage: one with a text block and a
  tool-use block, one with the tool-use block only.
\<close>

definition text_and_tool_content :: dict where
  "text_and_tool_content =
     [(''role'', JStr ''assistant''),
      (''content'', JList [JDict [(''type'', JStr ''text''), (''text'', JStr ''hi'')],
                           JDict [(''type'', JStr ''tool_use''), (''name'', JStr ''read''),
                                  (''id'', JStr ''t1'')]]),
      (''usage'', JDict [(''input_tokens'', JInt 10), (''output_tokens'', JInt 5)])]"

definition tool_only_content :: dict where
  "tool_only_content =
     [(''role'', JStr ''assistant''),
      (''content'', JList [JDict [(''type'', JStr ''tool_use''), (''name'', JStr ''read''),
                                  (''id'', JStr ''t1'')],
                           JDict [(''type'', JStr ''tool_use''), (''name'', JStr ''write''),
                                  (''id'', JStr ''t2'')]]),
      (''usage'', JDict [(''input_tokens'', JInt 10), (''output_tokens'', JInt 5)])]"

text \<open>
  The content data of an assistant message with usage and two tool-use blocks that have
  the same call identifier.
\<close>

definition same_id_content :: dict where
  "same_id_content =
     [(''role'', JStr ''assistant''),
      (''content'', JList [JDict [(''type'', JStr ''tool_use''), (''name'', JStr ''read''),
                                  (''id'', JStr ''t1'')],
                           JDict [(''type'', JStr ''tool_use''), (''name'', JStr ''write''),
                                  (''id'', JStr ''t1'')]]),
      (''usage'', JDict [(''input_tokens'', JInt 10), (''output_tokens'', JInt 5)])]"

text \<open>The state in which the walk over the messages starts.\<close>

definition state0 :: norm_state where
  "state0 = \<lparr>normalized_events = [], pending_calls = [], uuid_count = 1\<rparr>"

text \<open>
  An assistant message whose usage has a completion count of 0 and no other key.
\<close>

definition zero_usage_message :: dict where
  "zero_usage_message =
     [(''text'', JDict [(''role'', JStr ''assistant''), (''content'', JStr ''done''),
                        (''usage'', JDict [(''output_tokens'', JInt 0)])])]"



text \<open>A conversation whose message list also holds entries that are not mappings.\<close>

definition junk_messages :: "json list" where
  "junk_messages = [JStr ''noise'', JDict user_hi, JInt 3, JNull]"

definition junk_record :: dict where
  "junk_record =
     [(''id'', JStr ''run-1''), (''context'', JDict [(''messages'', JList junk_messages)])]"

section \<open>Basic facts\<close>

lemma ebind_Inl [simp]: "ebind (Inl e) f = Inl e"
  by (simp add: ebind_def)

lemma ebind_Inr [simp]: "ebind (Inr x) f = f x"
  by (simp add: ebind_def)

lemma ebind_eq_Inr: "ebind m f = Inr y \<longleftrightarrow> (\<exists>x. m = Inr x \<and> f x = Inr y)"
  by (cases m) simp_all

lemma strip_Nil [simp]: "strip [] = []"
  by (simp add: strip_def)

lemma join_eq_Nil: "sep \<noteq> [] \<Longrightarrow> [] \<notin> set xs \<Longrightarrow> join sep xs = [] \<longleftrightarrow> xs = []"
  by (induction sep xs rule: join.induct) auto

lemma join_parts_eq_Nil:
  "join_parts parts = [] \<longleftrightarrow> filter (\<lambda>p. strip p \<noteq> []) parts = []"
proof -
  have "[] \<notin> set (map strip (filter (\<lambda>part. part \<noteq> [] \<and> strip part \<noteq> []) parts))"
    by auto
  then have "join_parts parts = [] \<longleftrightarrow>
      filter (\<lambda>part. part \<noteq> [] \<and> strip part \<noteq> []) parts = []"
    unfolding join_parts_def by (subst join_eq_Nil) simp_all
  also have "filter (\<lambda>part. part \<noteq> [] \<and> strip part \<noteq> []) parts =
      filter (\<lambda>p. strip p \<noteq> []) parts"
    by (rule filter_cong) auto
  finally show ?thesis .
qed

lemma py_add_not_null: "py_add a b = Inr v \<Longrightarrow> v \<noteq> JNull"
  by (cases "(a, b)" rule: py_add.cases) (auto split: option.splits)

lemma map_of_dict_set: "map_of (dict_set d k v) = (map_of d)(k \<mapsto> v)"
  by (induction d k v rule: dict_set.induct) (auto simp: fun_eq_iff)

lemma dict_set_not_Nil [simp]: "dict_set d k v \<noteq> []"
  by (induction d k v rule: dict_set.induct) simp_all


lemma map_of_rev_member:
  assumes "key \<in> fst ` set kvs"
  shows "\<exists>v. map_of (rev kvs) key = Some v \<and> (key, v) \<in> set kvs"
proof -
  from assms have "key \<in> fst ` set (rev kvs)" by simp
  then obtain v where "map_of (rev kvs) key = Some v"
    by (cases "map_of (rev kvs) key") (auto simp: map_of_eq_None_iff)
  moreover from this have "(key, v) \<in> set kvs"
    by (auto dest: map_of_SomeD)
  ultimately show ?thesis by blast
qed

lemma distinct_length_filter_eq:
  "distinct xs \<Longrightarrow> length (filter (\<lambda>y. y = x) xs) = (if x \<in> set xs then 1 else 0)"
  by (induction xs) auto

section \<open>Metrics extractor: the guard against empty metrics\<close>

text \<open>
  The guard of \<^verbatim>\<open>_build_metrics\<close> returns \<^verbatim>\<open>None\<close> when the three counts are
  \<^verbatim>\<open>None\<close> and there are no extras. By then the counts were read with the default 0
  and the prompt count is a sum, which is never \<^verbatim>\<open>None\<close>: the guard never fires, and
  a mapping never yields "no metrics".
\<close>

lemma build_metrics_mapping_not_absent: "build_metrics (JDict u) \<noteq> Inr None"
proof
  assume h: "build_metrics (JDict u) = Inr None"
  then obtain p where p:
    "py_add (dict_get_default u ''input_tokens'' (JInt 0))
       (dict_get_default u ''cache_read_input_tokens'' (JInt 0)) = Inr p"
    by (auto simp: build_metrics_def Let_def ebind_eq_Inr)
  from py_add_not_null [OF p] h p show False
    by (simp add: build_metrics_def Let_def)
qed

text \<open>
  What the extractor returns for a mapping whose input and cache-read counts are
  integers, and the documented example.
\<close>

lemma build_metrics_integer_counts:
  assumes "dict_get_default u ''input_tokens'' (JInt 0) = JInt i"
    and "dict_get_default u ''cache_read_input_tokens'' (JInt 0) = JInt c"
  shows "build_metrics (JDict u) =
     Inr (Some \<lparr>prompt_tokens = JInt (i + c),
                completion_tokens = dict_get_default u ''output_tokens'' (JInt 0),
                cached_tokens = JInt c,
                cost_usd = JNull,
                metrics_extra =
                  (let ex = filter (\<lambda>kv. fst kv \<noteq> ''input_tokens'' \<and>
                                          fst kv \<noteq> ''output_tokens'') u
                   in if ex \<noteq> [] then Some ex else None)\<rparr>)"
  using assms by (simp add: build_metrics_def Let_def)

lemma build_metrics_documented_example:
  "build_metrics (JDict [(''input_tokens'', JInt 10), (''output_tokens'', JInt 5),
                         (''cache_read_input_tokens'', JInt 3)]) =
     Inr (Some \<lparr>prompt_tokens = JInt 13, completion_tokens = JInt 5, cached_tokens = JInt 3,
                cost_usd = JNull,
                metrics_extra = Some [(''cache_read_input_tokens'', JInt 3)]\<rparr>)"
  by code_simp

text \<open>
  C4 says that a usage payload whose prompt, completion and cached counts are all
  zero-equivalent and that has no other key gives no metrics at all, not an all-zero
  record. The code on such a payload, \<^verbatim>\<open>{"output_tokens": 0}\<close>: the extractor returns
  the all-zero record. The conversation whose one assistant message carries this usage
  has the all-zero metrics on its step and the totals 0, 0 and 0, where absent metrics
  give absent totals.
\<close>

theorem zero_usage_gives_all_zero_metrics:
  "build_metrics (JDict [(''output_tokens'', JInt 0)]) =
     Inr (Some \<lparr>prompt_tokens = JInt 0, completion_tokens = JInt 0, cached_tokens = JInt 0,
                cost_usd = JNull, metrics_extra = None\<rparr>) \<and>
   (case convert_forge_conversation_to_trajectory env0 (record_of [zero_usage_message]) of
      Inr (Some t) \<Rightarrow>
        map step_metrics (traj_steps t) =
          [Some \<lparr>prompt_tokens = JInt 0, completion_tokens = JInt 0, cached_tokens = JInt 0,
                  cost_usd = JNull, metrics_extra = None\<rparr>] \<and>
        total_prompt_tokens (traj_final_metrics t) = Some 0 \<and>
        total_completion_tokens (traj_final_metrics t) = Some 0 \<and>
        total_cached_tokens (traj_final_metrics t) = Some 0
    | _ \<Rightarrow> False)"
  by code_simp

section \<open>Content block extractor: absent reasoning\<close>

text \<open>
  C5, as stated, fails: with a text block and a reasoning block of blanks only, the
  extractor returns \<^verbatim>\<open>None\<close> for the reasoning, not the text "no reasoning".
\<close>

theorem extract_blank_reasoning_is_None:
  "extract_text_reasoning_tool_uses env0
     (JList [JDict [(''type'', JStr ''thinking''), (''text'', JStr ''  '')],
             JDict [(''type'', JStr ''text''), (''text'', JStr ''Hello'')]]) =
     Inr (''Hello'', None, []) \<and>
   extract_text_reasoning_tool_uses env0
     (JList [JDict [(''type'', JStr ''thinking''), (''text'', JStr ''  '')],
             JDict [(''type'', JStr ''text''), (''text'', JStr ''Hello'')]]) \<noteq>
     Inr (''Hello'', Some ''no reasoning'', [])"
  by code_simp

text \<open>
  C5 (amended): for every message content, when the extractor accumulates no reasoning
  fragment that is non-empty after trimming, it returns an absent reasoning
  (\<^verbatim>\<open>None\<close>); otherwise it returns the joined fragments, which are not the empty string.
  So an absent reasoning is told apart from any reasoning text, and the empty string is
  never returned.
\<close>

theorem extract_reasoning_absent_or_nonempty:
  assumes "content_parts env content = Inr (text_parts, reasoning_parts, tool_blocks)"
  shows "extract_text_reasoning_tool_uses env content =
           Inr (join_parts text_parts,
                if filter (\<lambda>p. strip p \<noteq> []) reasoning_parts = [] then None
                else Some (join_parts reasoning_parts),
                tool_blocks) \<and>
         (filter (\<lambda>p. strip p \<noteq> []) reasoning_parts = [] \<or> join_parts reasoning_parts \<noteq> [])"
proof (cases content)
  case (JStr s)
  with assms show ?thesis
    by (auto simp: content_parts_def extract_text_reasoning_tool_uses_def stringify_def
        join_parts_def)
next
  case JNull
  with assms show ?thesis
    by (simp add: extract_text_reasoning_tool_uses_def join_parts_eq_Nil)
next
  case (JBool b)
  with assms show ?thesis
    by (simp add: extract_text_reasoning_tool_uses_def join_parts_eq_Nil)
next
  case (JInt n)
  with assms show ?thesis
    by (simp add: extract_text_reasoning_tool_uses_def join_parts_eq_Nil)
next
  case (JList blocks)
  with assms show ?thesis
    by (simp add: extract_text_reasoning_tool_uses_def join_parts_eq_Nil)
next
  case (JDict d)
  with assms show ?thesis
    by (simp add: extract_text_reasoning_tool_uses_def join_parts_eq_Nil)
qed

theorem extract_reasoning_absent_or_nonempty_witness:
  "content_parts env0 (JList [JDict [(''type'', JStr ''text''), (''text'', JStr ''Hello'')],
                              JDict [(''type'', JStr ''text''), (''text'', JStr ''World'')]]) =
     Inr ([''Hello'', ''World''], [], []) \<and>
   extract_text_reasoning_tool_uses env0
     (JList [JDict [(''type'', JStr ''text''), (''text'', JStr ''Hello'')],
             JDict [(''type'', JStr ''text''), (''text'', JStr ''World'')]]) =
     Inr (join_parts [''Hello'', ''World''], None, [])"
proof -
  have h: "content_parts env0
      (JList [JDict [(''type'', JStr ''text''), (''text'', JStr ''Hello'')],
              JDict [(''type'', JStr ''text''), (''text'', JStr ''World'')]]) =
     Inr ([''Hello'', ''World''], [], [])"
    by code_simp
  from extract_reasoning_absent_or_nonempty [OF h] h show ?thesis
    by simp
qed

section \<open>What a produced trajectory was built from\<close>

lemma dict_get_Nil [simp]: "dict_get [] k = JNull"
  by (simp add: dict_get_def dict_get_default_def)

lemma convert_SomeD:
  assumes "convert_forge_conversation_to_trajectory env cd = Inr (Some t)"
  shows "\<exists>c msgs. dict_get cd ''context'' = JDict c \<and>
           py_iter (dict_get_default c ''messages'' (JList [])) = Inr msgs \<and>
           trajectory_of_messages env cd msgs = Inr (Some t)"
  using assms unfolding convert_forge_conversation_to_trajectory_def Let_def
  by (cases "dict_get cd ''context''") (simp_all add: ebind_eq_Inr split: if_splits)

lemma trajectory_of_messages_SomeD:
  assumes "trajectory_of_messages env cd msgs = Inr (Some t)"
  shows "\<exists>st. walk_messages env (find_model (self_model_name env) msgs) msgs
               \<lparr>normalized_events = [], pending_calls = [], uuid_count = 1\<rparr> = Inr st \<and>
           build_steps env (find_model (self_model_name env) msgs) 1
             (normalized_events st @ map (\<lambda>kv. ToolCall (snd kv)) (pending_calls st)) =
             Inr (traj_steps t) \<and>
           traj_steps t \<noteq> [] \<and>
           total_of (reported prompt_tokens (traj_steps t)) =
             Inr (total_prompt_tokens (traj_final_metrics t)) \<and>
           total_of (reported completion_tokens (traj_steps t)) =
             Inr (total_completion_tokens (traj_final_metrics t)) \<and>
           total_of (reported cached_tokens (traj_steps t)) =
             Inr (total_cached_tokens (traj_final_metrics t)) \<and>
           total_cost_of cd = Inr (total_cost_usd (traj_final_metrics t)) \<and>
           total_steps (traj_final_metrics t) = length (traj_steps t)"
  using assms unfolding trajectory_of_messages_def Let_def
  by (clarsimp simp: ebind_eq_Inr split: if_splits)

section \<open>Aggregate token totals\<close>

lemma py_sum_from_Inr:
  "py_sum_from acc vs = Inr n \<Longrightarrow> \<exists>ns. map as_int vs = map Some ns \<and> n = acc + sum_list ns"
proof (induction vs arbitrary: acc)
  case Nil
  then show ?case by simp
next
  case (Cons v vs)
  then obtain k where k: "as_int v = Some k" and r: "py_sum_from (acc + k) vs = Inr n"
    by (cases "as_int v") simp_all
  from Cons.IH [OF r] obtain ns where "map as_int vs = map Some ns" "n = acc + k + sum_list ns"
    by auto
  with k have "map as_int (v # vs) = map Some (k # ns) \<and> n = acc + sum_list (k # ns)"
    by simp
  then show ?case by blast
qed

lemma total_of_Inr:
  assumes "total_of vals = Inr r"
  shows "\<exists>ns. map as_int vals = map Some ns \<and>
           r = (if ns = [] then None else Some (sum_list ns))"
proof (cases "vals = []")
  case True
  with assms show ?thesis by (simp add: total_of_def)
next
  case False
  with assms obtain n where n: "py_sum_from 0 vals = Inr n" "r = Some n"
    by (auto simp: total_of_def py_sum_def ebind_eq_Inr)
  from py_sum_from_Inr [OF n(1)] obtain ns where
    ns: "map as_int vals = map Some ns" "n = sum_list ns"
    by auto
  from ns(1) False have "ns \<noteq> []" by auto
  with ns n(2) have
    "map as_int vals = map Some ns \<and> r = (if ns = [] then None else Some (sum_list ns))"
    by simp
  then show ?thesis by blast
qed

text \<open>
  The integer that \<^verbatim>\<open>sum\<close> takes a value for: an integer, or 0 and 1 for a boolean.
\<close>

lemma as_int_cases:
  "(case v of JInt n \<Rightarrow> Some n | JBool b \<Rightarrow> Some (if b then 1 else 0) | _ \<Rightarrow> None) =
     as_int v"
  by (cases v) simp_all

text \<open>
  The collector of the values of one field, written with the list functions: the field
  of the metrics of those steps that have metrics whose field is not \<^verbatim>\<open>None\<close>.
\<close>

lemma reported_eq:
  "reported field sts =
     map (\<lambda>s. field (the (step_metrics s)))
       (filter (\<lambda>s. case step_metrics s of None \<Rightarrow> False | Some m \<Rightarrow> field m \<noteq> JNull) sts)"
  by (induction sts) (auto simp: reported_def List.map_filter_simps split: option.splits)

text \<open>
  C7: in every produced trajectory, each aggregate token total (prompt, completion,
  cached) is the sum of that field over exactly the retained steps that have metrics
  reporting it: a step without metrics, or with metrics whose field is \<^verbatim>\<open>None\<close>, is
  left out, not counted as zero. Every value summed is an integer (or a boolean, which
  \<^verbatim>\<open>sum\<close> takes as 0 or 1), and when no step reports the field the total is absent
  (\<^verbatim>\<open>None\<close>), not zero.
\<close>

theorem totals_sum_reported_fields:
  assumes "convert_forge_conversation_to_trajectory env cd = Inr (Some t)"
  shows "let count = (\<lambda>v. case v of
                           JInt n \<Rightarrow> Some n
                         | JBool b \<Rightarrow> Some (if b then 1 else 0)
                         | _ \<Rightarrow> None);
             reporting = (\<lambda>field.
               filter (\<lambda>s. case step_metrics s of
                               None \<Rightarrow> False | Some m \<Rightarrow> field m \<noteq> JNull)
                 (traj_steps t))
         in (\<exists>ns. map (\<lambda>s. count (prompt_tokens (the (step_metrics s))))
                   (reporting prompt_tokens) = map Some ns \<and>
               total_prompt_tokens (traj_final_metrics t) =
                 (if ns = [] then None else Some (sum_list ns))) \<and>
            (\<exists>ns. map (\<lambda>s. count (completion_tokens (the (step_metrics s))))
                   (reporting completion_tokens) = map Some ns \<and>
               total_completion_tokens (traj_final_metrics t) =
                 (if ns = [] then None else Some (sum_list ns))) \<and>
            (\<exists>ns. map (\<lambda>s. count (cached_tokens (the (step_metrics s))))
                   (reporting cached_tokens) = map Some ns \<and>
               total_cached_tokens (traj_final_metrics t) =
                 (if ns = [] then None else Some (sum_list ns)))"
proof -
  from convert_SomeD [OF assms] obtain msgs where
    "trajectory_of_messages env cd msgs = Inr (Some t)" by blast
  from trajectory_of_messages_SomeD [OF this] have
    "total_of (reported prompt_tokens (traj_steps t)) =
       Inr (total_prompt_tokens (traj_final_metrics t))"
    "total_of (reported completion_tokens (traj_steps t)) =
       Inr (total_completion_tokens (traj_final_metrics t))"
    "total_of (reported cached_tokens (traj_steps t)) =
       Inr (total_cached_tokens (traj_final_metrics t))"
    by blast+
  from total_of_Inr [OF this(1)] total_of_Inr [OF this(2)] total_of_Inr [OF this(3)]
  show ?thesis
    unfolding Let_def as_int_cases reported_eq map_map comp_def by (intro conjI)
qed

text \<open>
  The witness: three steps, a user step without metrics and two agent steps with
  metrics, of which the second reports no completion count. The totals are 13 + 1, 5 and
  3 + 0. In a second run, of one user message, no step reports any count and every total
  is absent.
\<close>

theorem totals_sum_reported_fields_witness:
  "(\<exists>t. convert_forge_conversation_to_trajectory env0 usage_record = Inr (Some t) \<and>
      map step_message (traj_steps t) = [''hi'', ''one'', ''two''] \<and>
      map (\<lambda>s. case step_metrics s of
                  None \<Rightarrow> None
                | Some m \<Rightarrow> Some (prompt_tokens m, completion_tokens m, cached_tokens m))
        (traj_steps t) =
        [None, Some (JInt 13, JInt 5, JInt 3), Some (JInt 1, JNull, JInt 0)] \<and>
      total_prompt_tokens (traj_final_metrics t) = Some 14 \<and>
      total_completion_tokens (traj_final_metrics t) = Some 5 \<and>
      total_cached_tokens (traj_final_metrics t) = Some 3) \<and>
   (\<exists>t. convert_forge_conversation_to_trajectory env0 (record_of [user_hi]) = Inr (Some t) \<and>
      map step_metrics (traj_steps t) = [None] \<and>
      total_prompt_tokens (traj_final_metrics t) = None \<and>
      total_completion_tokens (traj_final_metrics t) = None \<and>
      total_cached_tokens (traj_final_metrics t) = None)"
proof -
  have "case convert_forge_conversation_to_trajectory env0 usage_record of
          Inr (Some t) \<Rightarrow>
            map step_message (traj_steps t) = [''hi'', ''one'', ''two''] \<and>
            map (\<lambda>s. case step_metrics s of
                        None \<Rightarrow> None
                      | Some m \<Rightarrow> Some (prompt_tokens m, completion_tokens m, cached_tokens m))
              (traj_steps t) =
              [None, Some (JInt 13, JInt 5, JInt 3), Some (JInt 1, JNull, JInt 0)]
        | _ \<Rightarrow> False"
    by code_simp
  then obtain t where t: "convert_forge_conversation_to_trajectory env0 usage_record = Inr (Some t)"
    and msg: "map step_message (traj_steps t) = [''hi'', ''one'', ''two'']"
    and v: "map (\<lambda>s. case step_metrics s of
                        None \<Rightarrow> None
                      | Some m \<Rightarrow> Some (prompt_tokens m, completion_tokens m, cached_tokens m))
              (traj_steps t) =
              [None, Some (JInt 13, JInt 5, JInt 3), Some (JInt 1, JNull, JInt 0)]"
    by (auto split: sum.splits option.splits)
  have "case convert_forge_conversation_to_trajectory env0 usage_record of
          Inr (Some t) \<Rightarrow>
            map (\<lambda>s. as_int (prompt_tokens (the (step_metrics s))))
              (filter (\<lambda>s. case step_metrics s of
                              None \<Rightarrow> False | Some m \<Rightarrow> prompt_tokens m \<noteq> JNull)
                 (traj_steps t)) = map Some [13, 1] \<and>
            map (\<lambda>s. as_int (completion_tokens (the (step_metrics s))))
              (filter (\<lambda>s. case step_metrics s of
                              None \<Rightarrow> False | Some m \<Rightarrow> completion_tokens m \<noteq> JNull)
                 (traj_steps t)) = map Some [5] \<and>
            map (\<lambda>s. as_int (cached_tokens (the (step_metrics s))))
              (filter (\<lambda>s. case step_metrics s of
                              None \<Rightarrow> False | Some m \<Rightarrow> cached_tokens m \<noteq> JNull)
                 (traj_steps t)) = map Some [3, 0]
        | _ \<Rightarrow> False"
    by code_simp
  with t have f:
    "map (\<lambda>s. as_int (prompt_tokens (the (step_metrics s))))
       (filter (\<lambda>s. case step_metrics s of
                       None \<Rightarrow> False | Some m \<Rightarrow> prompt_tokens m \<noteq> JNull)
          (traj_steps t)) = map Some [13, 1]"
    "map (\<lambda>s. as_int (completion_tokens (the (step_metrics s))))
       (filter (\<lambda>s. case step_metrics s of
                       None \<Rightarrow> False | Some m \<Rightarrow> completion_tokens m \<noteq> JNull)
          (traj_steps t)) = map Some [5]"
    "map (\<lambda>s. as_int (cached_tokens (the (step_metrics s))))
       (filter (\<lambda>s. case step_metrics s of
                       None \<Rightarrow> False | Some m \<Rightarrow> cached_tokens m \<noteq> JNull)
          (traj_steps t)) = map Some [3, 0]"
    by simp_all
  from totals_sum_reported_fields [OF t] have tot:
    "total_prompt_tokens (traj_final_metrics t) = Some 14"
    "total_completion_tokens (traj_final_metrics t) = Some 5"
    "total_cached_tokens (traj_final_metrics t) = Some 3"
    unfolding Let_def as_int_cases f by (clarsimp simp: Cons_eq_map_conv)+
  from t msg v tot have first: "\<exists>t. convert_forge_conversation_to_trajectory env0 usage_record =
        Inr (Some t) \<and>
      map step_message (traj_steps t) = [''hi'', ''one'', ''two''] \<and>
      map (\<lambda>s. case step_metrics s of
                  None \<Rightarrow> None
                | Some m \<Rightarrow> Some (prompt_tokens m, completion_tokens m, cached_tokens m))
        (traj_steps t) =
        [None, Some (JInt 13, JInt 5, JInt 3), Some (JInt 1, JNull, JInt 0)] \<and>
      total_prompt_tokens (traj_final_metrics t) = Some 14 \<and>
      total_completion_tokens (traj_final_metrics t) = Some 5 \<and>
      total_cached_tokens (traj_final_metrics t) = Some 3"
    by (intro exI conjI)
  have "case convert_forge_conversation_to_trajectory env0 (record_of [user_hi]) of
          Inr (Some t) \<Rightarrow> map step_metrics (traj_steps t) = [None]
        | _ \<Rightarrow> False"
    by code_simp
  then obtain u where u: "convert_forge_conversation_to_trajectory env0 (record_of [user_hi]) =
        Inr (Some u)"
    and w: "map step_metrics (traj_steps u) = [None]"
    by (auto split: sum.splits option.splits)
  have "case convert_forge_conversation_to_trajectory env0 (record_of [user_hi]) of
          Inr (Some t) \<Rightarrow>
            filter (\<lambda>s. case step_metrics s of
                            None \<Rightarrow> False | Some m \<Rightarrow> prompt_tokens m \<noteq> JNull)
              (traj_steps t) = [] \<and>
            filter (\<lambda>s. case step_metrics s of
                            None \<Rightarrow> False | Some m \<Rightarrow> completion_tokens m \<noteq> JNull)
              (traj_steps t) = [] \<and>
            filter (\<lambda>s. case step_metrics s of
                            None \<Rightarrow> False | Some m \<Rightarrow> cached_tokens m \<noteq> JNull)
              (traj_steps t) = []
        | _ \<Rightarrow> False"
    by code_simp
  with u have g:
    "filter (\<lambda>s. case step_metrics s of
                    None \<Rightarrow> False | Some m \<Rightarrow> prompt_tokens m \<noteq> JNull)
       (traj_steps u) = []"
    "filter (\<lambda>s. case step_metrics s of
                    None \<Rightarrow> False | Some m \<Rightarrow> completion_tokens m \<noteq> JNull)
       (traj_steps u) = []"
    "filter (\<lambda>s. case step_metrics s of
                    None \<Rightarrow> False | Some m \<Rightarrow> cached_tokens m \<noteq> JNull)
       (traj_steps u) = []"
    by simp_all
  from totals_sum_reported_fields [OF u] have tot':
    "total_prompt_tokens (traj_final_metrics u) = None"
    "total_completion_tokens (traj_final_metrics u) = None"
    "total_cached_tokens (traj_final_metrics u) = None"
    unfolding Let_def as_int_cases g by simp_all
  from u w tot' have second: "\<exists>t. convert_forge_conversation_to_trajectory env0
        (record_of [user_hi]) = Inr (Some t) \<and>
      map step_metrics (traj_steps t) = [None] \<and>
      total_prompt_tokens (traj_final_metrics t) = None \<and>
      total_completion_tokens (traj_final_metrics t) = None \<and>
      total_cached_tokens (traj_final_metrics t) = None"
    by (intro exI conjI)
  from first second show ?thesis by (rule conjI)
qed

section \<open>The run's total cost\<close>

lemma total_cost_of_Inr:
  assumes "total_cost_of cd = Inr c"
  shows "c = (if truthy (dict_get cd ''metrics'')
              then (case dict_get cd ''accumulated_usage'' of
                      JDict a \<Rightarrow> dict_get a ''cost'' | _ \<Rightarrow> JNull)
              else JNull)"
proof -
  have m: "truthy (dict_get_default cd ''metrics'' (JDict [])) = truthy (dict_get cd ''metrics'')"
    by (simp add: dict_get_def dict_get_default_def split: option.splits)
  show ?thesis
    using assms unfolding total_cost_of_def Let_def m
    by (cases "dict_get cd ''accumulated_usage''") (auto split: if_splits)
qed

text \<open>
  C6, as stated, fails: a record whose accumulated usage has the cost 5 and that has no
  top-level \<^verbatim>\<open>metrics\<close> entry yields a trajectory with an absent total cost.
\<close>

theorem cost_absent_without_metrics_entry:
  "dict_get usage_record_without_metrics ''accumulated_usage'' = JDict [(''cost'', JInt 5)] \<and>
   (case convert_forge_conversation_to_trajectory env0 usage_record_without_metrics of
      Inr (Some t) \<Rightarrow> total_cost_usd (traj_final_metrics t) = JNull
    | _ \<Rightarrow> False)"
  by code_simp

text \<open>
  C6 (amended): in every produced trajectory the total cost is the cost field of the
  record's top-level accumulated-usage mapping when the record also has a top-level
  \<^verbatim>\<open>metrics\<close> entry that is true in a truth test (for instance a non-empty mapping);
  it is absent when that entry is missing or empty, or when the accumulated usage is
  missing, empty or has no cost field.
\<close>

theorem total_cost_needs_metrics_entry:
  assumes "convert_forge_conversation_to_trajectory env cd = Inr (Some t)"
  shows "total_cost_usd (traj_final_metrics t) =
           (if truthy (dict_get cd ''metrics'')
            then (case dict_get cd ''accumulated_usage'' of
                    JDict a \<Rightarrow> dict_get a ''cost'' | _ \<Rightarrow> JNull)
            else JNull)"
proof -
  from convert_SomeD [OF assms] obtain msgs where
    "trajectory_of_messages env cd msgs = Inr (Some t)" by blast
  from trajectory_of_messages_SomeD [OF this]
  have "total_cost_of cd = Inr (total_cost_usd (traj_final_metrics t))"
    by blast
  then show ?thesis by (rule total_cost_of_Inr)
qed

theorem total_cost_needs_metrics_entry_witness:
  "\<exists>t. convert_forge_conversation_to_trajectory env0 usage_record = Inr (Some t) \<and>
     truthy (dict_get usage_record ''metrics'') \<and>
     dict_get usage_record ''accumulated_usage'' = JDict [(''cost'', JInt 5)] \<and>
     total_cost_usd (traj_final_metrics t) = JInt 5"
proof -
  have "case convert_forge_conversation_to_trajectory env0 usage_record of
          Inr (Some t) \<Rightarrow> True | _ \<Rightarrow> False"
    by code_simp
  then obtain t where t: "convert_forge_conversation_to_trajectory env0 usage_record = Inr (Some t)"
    by (auto split: sum.splits option.splits)
  have m: "truthy (dict_get usage_record ''metrics'')"
    by code_simp
  have a: "dict_get usage_record ''accumulated_usage'' = JDict [(''cost'', JInt 5)]"
    by code_simp
  have c: "dict_get [(''cost'', JInt 5)] ''cost'' = JInt 5"
    by code_simp
  from total_cost_needs_metrics_entry [OF t] m a c t show ?thesis
    by auto
qed

section \<open>Steps built from events\<close>

lemma source_of_role_agent: "source_of_role role = ''agent'' \<longleftrightarrow> role = JStr ''assistant''"
  by (simp add: source_of_role_def)

lemma message_step_id [simp]: "step_id (message_step env ev sid) = sid"
  by (simp add: message_step_def Let_def)

lemma message_step_source [simp]:
  "step_source (message_step env ev sid) = source_of_role (me_role ev)"
  by (simp add: message_step_def Let_def)

lemma message_step_observation [simp]: "step_observation (message_step env ev sid) = None"
  by (simp add: message_step_def Let_def)

lemma message_step_tool_calls [simp]: "step_tool_calls (message_step env ev sid) = None"
  by (simp add: message_step_def Let_def)

lemma message_step_non_agent:
  assumes "me_role ev \<noteq> JStr ''assistant''"
  shows "step_reasoning_content (message_step env ev sid) = None"
    and "step_model_name (message_step env ev sid) = JNull"
  using assms by (simp_all add: message_step_def Let_def source_of_role_agent)

lemma tool_call_step_Inr:
  assumes "tool_call_step env ev sid = Inr s"
  shows "step_id s = sid"
    and "step_source s = ''agent''"
    and "truthy (tc_call_id ev)"
    and "truthy (tc_tool_name ev)"
    and "step_tool_calls s =
           Some [\<lparr>tool_call_id = tc_call_id ev, function_name = tc_tool_name ev,
                   call_arguments = tc_arguments ev\<rparr>]"
    and "step_observation s =
           (if tc_output ev \<noteq> None
            then Some \<lparr>obs_results = [\<lparr>source_call_id = tc_call_id ev,
                         result_content = tc_output ev, subagent_trajectory_ref = JNull\<rparr>]\<rparr>
            else None)"
  using assms unfolding tool_call_step_def Let_def
  by (auto simp: ebind_eq_Inr split: if_splits)


lemma convert_event_to_step_id:
  "convert_event_to_step env ev sid = Inr s \<Longrightarrow> step_id s = sid"
  by (cases ev) (auto dest: tool_call_step_Inr(1))

lemma fill_model_fields [simp]:
  "step_id (fill_model d s) = step_id s"
  "step_source (fill_model d s) = step_source s"
  "step_reasoning_content (fill_model d s) = step_reasoning_content s"
  "step_observation (fill_model d s) = step_observation s"
  "step_tool_calls (fill_model d s) = step_tool_calls s"
  "step_metrics (fill_model d s) = step_metrics s"
  by (simp_all add: fill_model_def)

lemma fill_model_non_agent: "step_source s \<noteq> ''agent'' \<Longrightarrow> fill_model d s = s"
  by (simp add: fill_model_def)

text \<open>
  Every step of the loop comes from one event: the event at position \<open>j\<close> of the list
  gives the step with the identifier \<open>idx + j\<close>.
\<close>

lemma build_steps_member:
  assumes "build_steps env d idx evs = Inr sts" and "s \<in> set sts"
  shows "\<exists>j s0. j < length evs \<and> convert_event_to_step env (evs ! j) (idx + j) = Inr s0 \<and>
           s = fill_model d s0"
  using assms
proof (induction evs arbitrary: idx sts)
  case Nil
  then show ?case by simp
next
  case (Cons ev evs)
  show ?case
  proof (cases "convert_event_to_step env ev idx")
    case (Inl e)
    with Cons.prems(1) have e: "e = ValueError" and
      r: "build_steps env d (Suc idx) evs = Inr sts"
      by (cases e; simp)+
    from Cons.IH [OF r Cons.prems(2)] obtain j s0 where
      "j < length evs" "convert_event_to_step env (evs ! j) (Suc idx + j) = Inr s0"
      "s = fill_model d s0"
      by blast
    then have "Suc j < length (ev # evs) \<and>
        convert_event_to_step env ((ev # evs) ! Suc j) (idx + Suc j) = Inr s0 \<and>
        s = fill_model d s0"
      by simp
    then show ?thesis by blast
  next
    case (Inr st)
    with Cons.prems(1) obtain rest where
      r: "build_steps env d (Suc idx) evs = Inr rest" and sts: "sts = fill_model d st # rest"
      by (auto simp: ebind_eq_Inr)
    show ?thesis
    proof (cases "s = fill_model d st")
      case True
      with Inr have "0 < length (ev # evs) \<and>
          convert_event_to_step env ((ev # evs) ! 0) (idx + 0) = Inr st \<and> s = fill_model d st"
        by simp
      then show ?thesis by blast
    next
      case False
      with Cons.prems(2) sts have "s \<in> set rest" by simp
      from Cons.IH [OF r this] obtain j s0 where
        "j < length evs" "convert_event_to_step env (evs ! j) (Suc idx + j) = Inr s0"
        "s = fill_model d s0"
        by blast
      then have "Suc j < length (ev # evs) \<and>
          convert_event_to_step env ((ev # evs) ! Suc j) (idx + Suc j) = Inr s0 \<and>
          s = fill_model d s0"
        by simp
      then show ?thesis by blast
    qed
  qed
qed



section \<open>Steps of user and system messages\<close>

text \<open>
  C10: for every message event whose role is not \<^verbatim>\<open>assistant\<close>, so that its source is
  user or system, the step that the builder produces, also after the loop's default of
  the model name, carries no reasoning content and no model name.
\<close>

theorem non_agent_message_step_unattributed:
  assumes "me_role ev \<noteq> JStr ''assistant''"
  shows "convert_event_to_step env (Message ev) sid = Inr (message_step env ev sid) \<and>
         step_source (message_step env ev sid) =
           (if me_role ev = JStr ''user'' then ''user'' else ''system'') \<and>
         fill_model d (message_step env ev sid) = message_step env ev sid \<and>
         step_reasoning_content (message_step env ev sid) = None \<and>
         step_model_name (message_step env ev sid) = JNull"
proof -
  from assms have "step_source (message_step env ev sid) \<noteq> ''agent''"
    by (simp add: source_of_role_agent)
  then have "fill_model d (message_step env ev sid) = message_step env ev sid"
    by (rule fill_model_non_agent)
  with assms message_step_non_agent [OF assms] show ?thesis
    by (simp add: source_of_role_def)
qed

text \<open>
  The witness: a user message event that carries a reasoning text and a model name, with
  a configured model and a default model at hand. The step has neither.
\<close>

theorem non_agent_message_step_unattributed_witness:
  "me_role \<lparr>me_timestamp = JNull, me_role = JStr ''user'', me_text = ''hi'',
            me_reasoning = Some ''thought'', me_metrics = None, me_extra = None,
            me_model_name = JStr ''m1''\<rparr> \<noteq> JStr ''assistant'' \<and>
   convert_event_to_step (env0\<lparr>self_model_name := JStr ''m2''\<rparr>)
     (Message \<lparr>me_timestamp = JNull, me_role = JStr ''user'', me_text = ''hi'',
               me_reasoning = Some ''thought'', me_metrics = None, me_extra = None,
               me_model_name = JStr ''m1''\<rparr>) 1 =
     Inr \<lparr>step_id = 1, step_timestamp = JNull, step_source = ''user'', step_message = ''hi'',
          step_reasoning_content = None, step_model_name = JNull, step_tool_calls = None,
          step_observation = None, step_metrics = None, step_extra = None\<rparr> \<and>
   fill_model (JStr ''m3'')
     \<lparr>step_id = 1, step_timestamp = JNull, step_source = ''user'', step_message = ''hi'',
      step_reasoning_content = None, step_model_name = JNull, step_tool_calls = None,
      step_observation = None, step_metrics = None, step_extra = None\<rparr> =
     \<lparr>step_id = 1, step_timestamp = JNull, step_source = ''user'', step_message = ''hi'',
      step_reasoning_content = None, step_model_name = JNull, step_tool_calls = None,
      step_observation = None, step_metrics = None, step_extra = None\<rparr>"
proof -
  have m: "message_step (env0\<lparr>self_model_name := JStr ''m2''\<rparr>)
      \<lparr>me_timestamp = JNull, me_role = JStr ''user'', me_text = ''hi'',
       me_reasoning = Some ''thought'', me_metrics = None, me_extra = None,
       me_model_name = JStr ''m1''\<rparr> 1 =
     \<lparr>step_id = 1, step_timestamp = JNull, step_source = ''user'', step_message = ''hi'',
      step_reasoning_content = None, step_model_name = JNull, step_tool_calls = None,
      step_observation = None, step_metrics = None, step_extra = None\<rparr>"
    by (simp add: message_step_def source_of_role_def nonempty_def Let_def)
  have r: "me_role \<lparr>me_timestamp = JNull, me_role = JStr ''user'', me_text = ''hi'',
            me_reasoning = Some ''thought'', me_metrics = None, me_extra = None,
            me_model_name = JStr ''m1''\<rparr> \<noteq> JStr ''assistant''"
    by simp
  from non_agent_message_step_unattributed [OF r,
      of "env0\<lparr>self_model_name := JStr ''m2''\<rparr>" 1 "JStr ''m3''"] r
  show ?thesis
    unfolding m by simp
qed

text \<open>
  The same for the trajectory: a step whose source is not the agent has no reasoning
  content and no model name.
\<close>

lemma trajectory_non_agent_steps_unattributed:
  assumes "convert_forge_conversation_to_trajectory env cd = Inr (Some t)"
    and "s \<in> set (traj_steps t)" and "step_source s \<noteq> ''agent''"
  shows "step_reasoning_content s = None \<and> step_model_name s = JNull"
proof -
  from convert_SomeD [OF assms(1)] obtain msgs where
    "trajectory_of_messages env cd msgs = Inr (Some t)" by blast
  from trajectory_of_messages_SomeD [OF this] obtain st :: norm_state where
    "build_steps env (find_model (self_model_name env) msgs) 1
       (normalized_events st @ map (\<lambda>kv. ToolCall (snd kv)) (pending_calls st)) =
     Inr (traj_steps t)"
    by blast
  from build_steps_member [OF this assms(2)] obtain ev sid s0 where
    c: "convert_event_to_step env ev sid = Inr s0"
    and s: "s = fill_model (find_model (self_model_name env) msgs) s0"
    by blast
  show ?thesis
  proof (cases ev)
    case (Message mev)
    with c have s0: "s0 = message_step env mev sid" by simp
    from s assms(3) have na: "step_source s0 \<noteq> ''agent''" by simp
    with s have eq: "s = s0" by (simp add: fill_model_non_agent)
    from na s0 have "me_role mev \<noteq> JStr ''assistant''"
      by (simp add: source_of_role_agent)
    from message_step_non_agent [OF this, of env sid] eq s0 show ?thesis
      by simp
  next
    case (ToolCall tev)
    with c have "tool_call_step env tev sid = Inr s0" by simp
    from tool_call_step_Inr(2) [OF this] s assms(3) show ?thesis by simp
  qed
qed

section \<open>Step identifiers when an event is skipped\<close>

text \<open>
  In general the identifiers of the retained steps increase strictly and each is the
  position of its event, between the start index and the number of events.
\<close>

lemma build_steps_ids_increasing:
  assumes "build_steps env d idx evs = Inr sts"
  shows "sorted_wrt (<) (map step_id sts) \<and>
         (\<forall>s \<in> set sts. idx \<le> step_id s \<and> step_id s < idx + length evs)"
  using assms
proof (induction evs arbitrary: idx sts)
  case Nil
  then show ?case by simp
next
  case (Cons ev evs)
  show ?case
  proof (cases "convert_event_to_step env ev idx")
    case (Inl e)
    with Cons.prems have "build_steps env d (Suc idx) evs = Inr sts"
      by (cases e) simp_all
    from Cons.IH [OF this] show ?thesis by auto
  next
    case (Inr st)
    with Cons.prems obtain rest where
      r: "build_steps env d (Suc idx) evs = Inr rest" and sts: "sts = fill_model d st # rest"
      by (auto simp: ebind_eq_Inr)
    from convert_event_to_step_id [OF Inr] have "step_id (fill_model d st) = idx" by simp
    with Cons.IH [OF r] sts show ?thesis by auto
  qed
qed

text \<open>
  C1 says that the retained steps are numbered 1, 2, ..., \<^verbatim>\<open>total_steps\<close> without a gap,
  also when an event is skipped. The code on a concrete record: a tool result without a
  pending call and without a tool name, then a user message. The first event is rejected
  by the step builder and skipped; the one retained step has the identifier 2, while the
  trajectory counts one step. The skip does not give the index back.
\<close>

theorem skipped_event_leaves_identifier_gap:
  "(case convert_forge_conversation_to_trajectory env0 (record_of [unnamed_result, user_hi]) of
      Inr (Some t) \<Rightarrow>
        map step_id (traj_steps t) = [2] \<and> total_steps (traj_final_metrics t) = 1
    | _ \<Rightarrow> False)"
  by code_simp

section \<open>The walk only appends events\<close>









section \<open>The step of a tool result\<close>




section \<open>A tool result with no pending call\<close>


lemma fresh_call_id_truthy [simp]: "truthy (fresh_call_id env k)"
  by (simp add: fresh_call_id_def)




section \<open>The events of one text message\<close>

lemma tool_block_event_metrics [simp]:
  "tc_metrics (tool_block_event ts reasoning ex model mtr call_id tool_block) = mtr"
  by (simp add: tool_block_event_def Let_def)

text \<open>Past the first block, or with no metrics left, the loop gives none.\<close>

lemma tool_call_events_no_metrics:
  assumes "tool_call_events env ts reasoning ex model mtr idx blocks k = (calls, k')"
    and "idx \<noteq> 0 \<or> mtr = None"
  shows "map (\<lambda>c. tc_metrics (snd c)) calls = replicate (length blocks) None"
  using assms
proof (induction blocks arbitrary: idx mtr k calls k')
  case Nil
  then show ?case by simp
next
  case (Cons b blocks)
  obtain call_id k1 where id: "tool_block_call_id env b k = (call_id, k1)"
    by (cases "tool_block_call_id env b k")
  from Cons.prems(2) have nt: "\<not> (idx = 0 \<and> mtr \<noteq> None)" by auto
  obtain rest k2 where r: "tool_call_events env ts reasoning ex model mtr (Suc idx) blocks k1 =
      (rest, k2)"
    by (cases "tool_call_events env ts reasoning ex model mtr (Suc idx) blocks k1")
  from nt have eq: "(if idx = 0 \<and> mtr \<noteq> None then None else mtr) = mtr"
    "(if idx = 0 \<and> mtr \<noteq> None then mtr else None) = None"
    by auto
  from Cons.prems(1) have calls:
    "calls = (call_id, tool_block_event ts reasoning ex model None call_id b) # rest"
    unfolding tool_call_events.simps id Let_def eq by (simp add: r)
  from Cons.IH [OF r] have "map (\<lambda>c. tc_metrics (snd c)) rest = replicate (length blocks) None"
    by simp
  with calls show ?case by simp
qed

text \<open>The first block takes the metrics that are left.\<close>

lemma tool_call_events_first:
  assumes "tool_call_events env ts reasoning ex model mtr 0 (b # blocks) k = (calls, k')"
  shows "map (\<lambda>c. tc_metrics (snd c)) calls = mtr # replicate (length blocks) None"
proof -
  obtain call_id k1 where id: "tool_block_call_id env b k = (call_id, k1)"
    by (cases "tool_block_call_id env b k")
  obtain rest k2 where r: "tool_call_events env ts reasoning ex model None (Suc 0) blocks k1 =
      (rest, k2)"
    by (cases "tool_call_events env ts reasoning ex model None (Suc 0) blocks k1")
  from assms id r have
    "calls = (call_id, tool_block_event ts reasoning ex model mtr call_id b) # rest"
    by (cases mtr) (simp_all add: Let_def)
  moreover from tool_call_events_no_metrics [OF r] have
    "map (\<lambda>c. tc_metrics (snd c)) rest = replicate (length blocks) None"
    by simp
  ultimately show ?thesis by simp
qed

lemma tool_call_events_length:
  "tool_call_events env ts reasoning ex model mtr idx blocks k = (calls, k') \<Longrightarrow>
     length calls = length blocks"
proof (induction blocks arbitrary: idx mtr k calls)
  case Nil
  then show ?case by simp
next
  case (Cons b blocks)
  then show ?case
    by (auto simp: Let_def split: prod.splits)
qed

lemma tool_call_events_ids:
  "tool_call_events env ts reasoning ex model mtr idx blocks k = (calls, k') \<Longrightarrow>
     map fst calls = tool_block_call_ids env blocks k"
proof (induction blocks arbitrary: idx mtr k calls)
  case Nil
  then show ?case by simp
next
  case (Cons b blocks)
  then show ?case
    by (auto simp: Let_def split: prod.splits)
qed

lemma tool_block_event_output [simp]:
  "tc_output (tool_block_event ts reasoning ex model mtr call_id tool_block) = None"
  by (simp add: tool_block_event_def Let_def)

lemma tool_block_event_call_id [simp]:
  "tc_call_id (tool_block_event ts reasoning ex model mtr call_id tool_block) = call_id"
  by (simp add: tool_block_event_def Let_def)

lemma tool_block_call_id_truthy:
  "tool_block_call_id env tool_block k = (call_id, k') \<Longrightarrow> truthy call_id"
  by (auto simp: tool_block_call_id_def Let_def fresh_call_id_def split: if_splits)

text \<open>
  A pending event has no output yet, and its call identifier is true in a truth test.
\<close>

lemma tool_call_events_output:
  "tool_call_events env ts reasoning ex model mtr idx blocks k = (calls, k') \<Longrightarrow>
     \<forall>c \<in> set calls. tc_output (snd c) = None \<and> truthy (tc_call_id (snd c))"
proof (induction blocks arbitrary: idx mtr k calls k')
  case Nil
  then show ?case by simp
next
  case (Cons b blocks)
  obtain call_id k1 where id: "tool_block_call_id env b k = (call_id, k1)"
    by (cases "tool_block_call_id env b k")
  define later where "later = (if idx = 0 \<and> mtr \<noteq> None then None else mtr)"
  define own where "own = (if idx = 0 \<and> mtr \<noteq> None then mtr else None)"
  obtain rest k2 where
    r: "tool_call_events env ts reasoning ex model later (Suc idx) blocks k1 = (rest, k2)"
    by (cases "tool_call_events env ts reasoning ex model later (Suc idx) blocks k1")
  from Cons.prems have
    "calls = (call_id, tool_block_event ts reasoning ex model own call_id b) # rest"
    unfolding tool_call_events.simps id Let_def later_def [symmetric] own_def [symmetric]
    by (simp add: r)
  with Cons.IH [OF r] tool_block_call_id_truthy [OF id] show ?case by simp
qed

text \<open>What the stores of one message leave under each key: the last event stored there.\<close>

lemma store_calls_map_of:
  "store_calls calls pending = Inr pending' \<Longrightarrow>
     map_of pending' =
       map_of pending ++ map_of (rev (map (\<lambda>c. (key_norm (fst c), snd c)) calls))"
proof (induction calls arbitrary: pending)
  case Nil
  then show ?case by simp
next
  case (Cons c calls)
  obtain call_id ev where c: "c = (call_id, ev)" by (cases c)
  from Cons.prems c have
    r: "store_calls calls (dict_set pending (key_norm call_id) ev) = Inr pending'"
    by (simp split: if_splits)
  from Cons.IH [OF r] show ?case
    by (simp add: c map_of_dict_set map_add_upd_left fun_eq_iff map_add_def split: option.splits)
qed

text \<open>
  The pending entries under the call identifiers of one message, after its events are
  stored: none has metrics when no event has; when the first event has the metrics, the
  entry of its identifier has them unless a later event took that identifier.
\<close>

lemma store_calls_metrics:
  assumes sc: "store_calls calls pending = Inr pending'"
    and keys: "keys = map (\<lambda>c. key_norm (fst c)) calls"
  shows "\<forall>key. key \<notin> set keys \<longrightarrow> map_of pending' key = map_of pending key"
    and "map (\<lambda>c. tc_metrics (snd c)) calls = replicate (length calls) None \<Longrightarrow>
         \<forall>key \<in> set keys. \<exists>ev. map_of pending' key = Some ev \<and> tc_metrics ev = None"
    and "calls \<noteq> [] \<Longrightarrow>
         map (\<lambda>c. tc_metrics (snd c)) calls = mtr # replicate (length calls - 1) None \<Longrightarrow>
         \<forall>key \<in> set keys. \<exists>ev. map_of pending' key = Some ev \<and>
            tc_metrics ev = (if key = hd keys \<and> key \<notin> set (tl keys) then mtr else None)"
proof -
  define kvs where "kvs = map (\<lambda>c. (key_norm (fst c), snd c)) calls"
  have fk: "map fst kvs = keys"
    by (simp add: kvs_def keys comp_def)
  then have sk: "fst ` set kvs = set keys"
    by (metis set_map)
  from store_calls_map_of [OF sc] have
    mp: "map_of pending' = map_of pending ++ map_of (rev kvs)"
    by (simp add: kvs_def)
  show "\<forall>key. key \<notin> set keys \<longrightarrow> map_of pending' key = map_of pending key"
  proof (intro allI impI)
    fix key assume "key \<notin> set keys"
    with sk have "map_of (rev kvs) key = None"
      by (simp add: map_of_eq_None_iff)
    with mp show "map_of pending' key = map_of pending key"
      by (simp add: map_add_def)
  qed
  show "\<forall>key \<in> set keys. \<exists>ev. map_of pending' key = Some ev \<and> tc_metrics ev = None"
    if n: "map (\<lambda>c. tc_metrics (snd c)) calls = replicate (length calls) None"
  proof
    fix key assume "key \<in> set keys"
    with sk have "key \<in> fst ` set kvs" by simp
    from map_of_rev_member [OF this] obtain v where
      v: "map_of (rev kvs) key = Some v" "(key, v) \<in> set kvs"
      by blast
    from v(2) obtain c where "c \<in> set calls" "v = snd c"
      by (auto simp: kvs_def)
    then have "tc_metrics v \<in> set (map (\<lambda>c. tc_metrics (snd c)) calls)"
      by auto
    with n have "tc_metrics v = None" by simp
    with v(1) mp show "\<exists>ev. map_of pending' key = Some ev \<and> tc_metrics ev = None"
      by (simp add: map_add_def)
  qed
  show "\<forall>key \<in> set keys. \<exists>ev. map_of pending' key = Some ev \<and>
            tc_metrics ev = (if key = hd keys \<and> key \<notin> set (tl keys) then mtr else None)"
    if ne: "calls \<noteq> []"
      and n: "map (\<lambda>c. tc_metrics (snd c)) calls = mtr # replicate (length calls - 1) None"
  proof
    fix key assume k: "key \<in> set keys"
    from ne obtain c0 rest where calls: "calls = c0 # rest"
      by (cases calls) auto
    define kvr where "kvr = map (\<lambda>c. (key_norm (fst c), snd c)) rest"
    from calls have kvs: "kvs = (key_norm (fst c0), snd c0) # kvr"
      by (simp add: kvs_def kvr_def)
    from calls keys have hd: "hd keys = key_norm (fst c0)" and tl: "tl keys = map fst kvr"
      by (simp_all add: kvr_def comp_def)
    from n calls have m0: "tc_metrics (snd c0) = mtr"
      and mr: "map (\<lambda>c. tc_metrics (snd c)) rest = replicate (length rest) None"
      by simp_all
    from kvs have mrev: "map_of (rev kvs) key =
        (case map_of (rev kvr) key of
           None \<Rightarrow> (if key = key_norm (fst c0) then Some (snd c0) else None)
         | Some v \<Rightarrow> Some v)"
      by (simp add: map_add_def split: option.splits)
    show "\<exists>ev. map_of pending' key = Some ev \<and>
            tc_metrics ev = (if key = hd keys \<and> key \<notin> set (tl keys) then mtr else None)"
    proof (cases "key \<in> set (tl keys)")
      case True
      with tl have "key \<in> fst ` set kvr" by simp
      from map_of_rev_member [OF this] obtain v where
        v: "map_of (rev kvr) key = Some v" "(key, v) \<in> set kvr"
        by blast
      from v(2) obtain c where "c \<in> set rest" "v = snd c"
        by (auto simp: kvr_def)
      then have "tc_metrics v \<in> set (map (\<lambda>c. tc_metrics (snd c)) rest)"
        by auto
      with mr have "tc_metrics v = None" by simp
      with v(1) mrev mp True show ?thesis
        by (simp add: map_add_def)
    next
      case False
      with tl have "map_of (rev kvr) key = None"
        by (simp add: map_of_eq_None_iff)
      moreover from False k calls keys hd have "key = key_norm (fst c0)"
        by (cases keys) auto
      ultimately show ?thesis
        using mrev mp False hd m0 by (simp add: map_add_def)
    qed
  qed
qed


text \<open>What a handled text message was built from.\<close>

lemma handle_text_Inr:
  assumes "handle_text env d ts content_data st = Inr st'"
  shows "\<exists>msg_event calls k.
           text_events env d ts content_data (uuid_count st) = Inr (msg_event, calls, k) \<and>
           store_calls calls (pending_calls st) = Inr (pending_calls st') \<and>
           normalized_events st' =
             normalized_events st @ (case msg_event of None \<Rightarrow> [] | Some ev \<Rightarrow> [Message ev])"
  using assms unfolding handle_text_def
  by (auto simp: ebind_eq_Inr split: prod.splits)

lemma text_events_Inr:
  assumes "text_events env d ts content_data k = Inr (msg_event, calls, k')"
  shows "\<exists>tx reasoning tool_blocks mtr.
           extract_text_reasoning_tool_uses env
             (dict_get_default content_data ''content'' (JStr [])) =
             Inr (tx, reasoning, tool_blocks) \<and>
           (if truthy (dict_get content_data ''usage'')
            then build_metrics (dict_get content_data ''usage'') else Inr None) = Inr mtr \<and>
           map fst calls = tool_block_call_ids env tool_blocks k \<and>
           (\<forall>c \<in> set calls. tc_output (snd c) = None \<and> truthy (tc_call_id (snd c))) \<and>
           (if tx \<noteq> [] \<or> nonempty reasoning \<or> tool_blocks = []
            then (\<exists>e. msg_event = Some e \<and> me_metrics e = mtr) \<and>
                 map (\<lambda>c. tc_metrics (snd c)) calls = replicate (length calls) None
            else msg_event = None \<and> calls \<noteq> [] \<and>
                 map (\<lambda>c. tc_metrics (snd c)) calls =
                   mtr # replicate (length calls - 1) None)"
proof -
  define ex where "ex = (if truthy (dict_get content_data ''model'')
      then [(''model'', dict_get content_data ''model'')] else [])"
  define model where "model = py_or (dict_get content_data ''model'') d"
  define role where "role = dict_get_default content_data ''role'' (JStr ''user'')"
  from assms obtain tx reasoning tool_blocks mtr where
    x: "extract_text_reasoning_tool_uses env
          (dict_get_default content_data ''content'' (JStr [])) =
        Inr (tx, reasoning, tool_blocks)"
    and m: "(if truthy (dict_get content_data ''usage'')
          then build_metrics (dict_get content_data ''usage'') else Inr None) = Inr mtr"
    and me: "msg_event = text_message_event ts role tx reasoning tool_blocks mtr ex model"
    and tc: "tool_call_events env ts reasoning ex model
          (if msg_event \<noteq> None then None else mtr) 0 tool_blocks k = (calls, k')"
    unfolding text_events_def Let_def ex_def model_def role_def
    by (auto simp: ebind_eq_Inr split: prod.splits)
  from tool_call_events_length [OF tc] have len: "length calls = length tool_blocks" .
  note ids = tool_call_events_ids [OF tc]
  note outs = tool_call_events_output [OF tc]
  show ?thesis
  proof (cases "tx \<noteq> [] \<or> nonempty reasoning \<or> tool_blocks = []")
    case True
    with me obtain e where e: "msg_event = Some e" "me_metrics e = mtr"
      by (auto simp: text_message_event_def)
    with tc have "tool_call_events env ts reasoning ex model None 0 tool_blocks k = (calls, k')"
      by simp
    from tool_call_events_no_metrics [OF this] len have
      n: "map (\<lambda>c. tc_metrics (snd c)) calls = replicate (length calls) None"
      by simp
    from x m ids outs True e n show ?thesis by auto
  next
    case False
    with me have none: "msg_event = None"
      by (auto simp: text_message_event_def)
    from False obtain b blocks where tb: "tool_blocks = b # blocks"
      by (cases tool_blocks) auto
    from tc none tb have
      "tool_call_events env ts reasoning ex model mtr 0 (b # blocks) k = (calls, k')"
      by simp
    from tool_call_events_first [OF this] len tb have
      n: "map (\<lambda>c. tc_metrics (snd c)) calls = mtr # replicate (length calls - 1) None"
      by simp
    from len tb have "calls \<noteq> []" by auto
    with x m ids outs False none n show ?thesis by auto
  qed
qed

section \<open>The metrics of one raw message\<close>

text \<open>
  C3, as stated, fails: for an assistant message with a text block, a tool-use block and
  usage, the walk leaves the metrics on the message event, and the pending event of the
  first tool-use block has none; so it is in the trajectory.
\<close>

theorem text_with_tool_call_metrics_on_message:
  "(case handle_text env0 JNull JNull text_and_tool_content state0 of
      Inr st \<Rightarrow>
        map event_metrics (normalized_events st) =
          [Some \<lparr>prompt_tokens = JInt 10, completion_tokens = JInt 5, cached_tokens = JInt 0,
                  cost_usd = JNull, metrics_extra = None\<rparr>] \<and>
        map (\<lambda>kv. (fst kv, tc_tool_name (snd kv), tc_metrics (snd kv))) (pending_calls st) =
          [(JStr ''t1'', JStr ''read'', None)]
    | _ \<Rightarrow> False) \<and>
   (case convert_forge_conversation_to_trajectory env0
           (record_of [[(''text'', JDict text_and_tool_content)]]) of
      Inr (Some t) \<Rightarrow>
        map step_message (traj_steps t) = [''hi'', ''Executed read t1''] \<and>
        map (\<lambda>s. step_metrics s = None) (traj_steps t) = [False, True]
    | _ \<Rightarrow> False)"
  by code_simp

text \<open>
  C3 (amended): for every raw text message, handled in any state of the walk, the
  metrics extracted from its usage go to the message event whenever the message has one,
  that is when it has text or reasoning or no tool-use block, and then the pending event
  under each call identifier of the message has no metrics. Only when the message has
  tool-use blocks and neither text nor reasoning do the metrics go to the event of the
  first tool-use block, and to no later one. Among the events that the message leaves in
  the state (the appended message event and the pending events under its call
  identifiers) the metrics are on at most one, never on two; they are on exactly one
  when there are metrics and the call identifiers of the message are distinct. The
  pending events of other call identifiers stay as they were.

  The events are stored under their call identifiers, and the theorem also says what
  the state holds when a later block of the message has the call identifier of the first:
  the later event replaces the first one, and no event of the message has the metrics.
\<close>

theorem text_message_metrics_on_one_event:
  assumes "handle_text env d ts content_data st = Inr st'"
  shows "\<exists>txt reasoning tool_blocks mtr keys.
           extract_text_reasoning_tool_uses env
             (dict_get_default content_data ''content'' (JStr [])) =
             Inr (txt, reasoning, tool_blocks) \<and>
           (if truthy (dict_get content_data ''usage'')
            then build_metrics (dict_get content_data ''usage'') else Inr None) = Inr mtr \<and>
           keys = map key_norm (tool_block_call_ids env tool_blocks (uuid_count st)) \<and>
           (\<forall>key. key \<notin> set keys \<longrightarrow>
              map_of (pending_calls st') key = map_of (pending_calls st) key) \<and>
           (if txt \<noteq> [] \<or> nonempty reasoning \<or> tool_blocks = []
            then (\<exists>e. normalized_events st' = normalized_events st @ [Message e] \<and>
                      me_metrics e = mtr) \<and>
                 (\<forall>key \<in> set keys. \<exists>ev. map_of (pending_calls st') key = Some ev \<and>
                    tc_metrics ev = None)
            else normalized_events st' = normalized_events st \<and>
                 (\<forall>key \<in> set keys. \<exists>ev. map_of (pending_calls st') key = Some ev \<and>
                    tc_metrics ev =
                      (if key = hd keys \<and> key \<notin> set (tl keys) then mtr else None))) \<and>
           length (filter (\<lambda>e. event_metrics e \<noteq> None)
                     (drop (length (normalized_events st)) (normalized_events st'))) +
           length (filter (\<lambda>key. case map_of (pending_calls st') key of
                                    None \<Rightarrow> False | Some ev \<Rightarrow> tc_metrics ev \<noteq> None)
                     (remdups keys)) =
             (if mtr = None then 0
              else if (txt \<noteq> [] \<or> nonempty reasoning \<or> tool_blocks = []) \<or>
                      hd keys \<notin> set (tl keys)
              then 1 else 0)"
proof -
  from handle_text_Inr [OF assms] obtain msg_event calls k where
    te: "text_events env d ts content_data (uuid_count st) = Inr (msg_event, calls, k)"
    and sc: "store_calls calls (pending_calls st) = Inr (pending_calls st')"
    and ne: "normalized_events st' =
        normalized_events st @ (case msg_event of None \<Rightarrow> [] | Some ev \<Rightarrow> [Message ev])"
    by blast
  from text_events_Inr [OF te] obtain tx reasoning tool_blocks mtr where
    x: "extract_text_reasoning_tool_uses env
          (dict_get_default content_data ''content'' (JStr [])) =
        Inr (tx, reasoning, tool_blocks)"
    and m: "(if truthy (dict_get content_data ''usage'')
          then build_metrics (dict_get content_data ''usage'') else Inr None) = Inr mtr"
    and ids: "map fst calls = tool_block_call_ids env tool_blocks (uuid_count st)"
    and split: "if tx \<noteq> [] \<or> nonempty reasoning \<or> tool_blocks = []
            then (\<exists>e. msg_event = Some e \<and> me_metrics e = mtr) \<and>
                 map (\<lambda>c. tc_metrics (snd c)) calls = replicate (length calls) None
            else msg_event = None \<and> calls \<noteq> [] \<and>
                 map (\<lambda>c. tc_metrics (snd c)) calls =
                   mtr # replicate (length calls - 1) None"
    by blast
  define keys where "keys = map key_norm (tool_block_call_ids env tool_blocks (uuid_count st))"
  have keys: "keys = map (\<lambda>c. key_norm (fst c)) calls"
    unfolding keys_def ids [symmetric] by simp
  let ?has = "\<lambda>key. case map_of (pending_calls st') key of
                       None \<Rightarrow> False | Some ev \<Rightarrow> tc_metrics ev \<noteq> None"
  note unchanged = store_calls_metrics(1) [OF sc keys]
  show ?thesis
  proof (cases "tx \<noteq> [] \<or> nonempty reasoning \<or> tool_blocks = []")
    case True
    with split obtain e where e: "msg_event = Some e" "me_metrics e = mtr"
      and n: "map (\<lambda>c. tc_metrics (snd c)) calls = replicate (length calls) None"
      by auto
    from ne e have ev: "normalized_events st' = normalized_events st @ [Message e]"
      by simp
    note none = store_calls_metrics(2) [OF sc keys n]
    from none have "filter ?has (remdups keys) = []"
      by (auto simp: filter_empty_conv)
    with ev e True have count: "length (filter (\<lambda>e. event_metrics e \<noteq> None)
          (drop (length (normalized_events st)) (normalized_events st'))) +
        length (filter ?has (remdups keys)) =
        (if mtr = None then 0
         else if (tx \<noteq> [] \<or> nonempty reasoning \<or> tool_blocks = []) \<or>
                 hd keys \<notin> set (tl keys)
         then 1 else 0)"
      by simp
    from ev e(2) have "\<exists>e. normalized_events st' = normalized_events st @ [Message e] \<and>
        me_metrics e = mtr"
      by blast
    with none have branch:
      "if tx \<noteq> [] \<or> nonempty reasoning \<or> tool_blocks = []
       then (\<exists>e. normalized_events st' = normalized_events st @ [Message e] \<and>
                 me_metrics e = mtr) \<and>
            (\<forall>key \<in> set keys. \<exists>ev. map_of (pending_calls st') key = Some ev \<and>
               tc_metrics ev = None)
       else normalized_events st' = normalized_events st \<and>
            (\<forall>key \<in> set keys. \<exists>ev. map_of (pending_calls st') key = Some ev \<and>
               tc_metrics ev =
                 (if key = hd keys \<and> key \<notin> set (tl keys) then mtr else None))"
      unfolding if_P [OF True] by (rule conjI [rotated])
    from x m keys_def unchanged branch count show ?thesis
      by (intro exI conjI)
  next
    case False
    with split have msg: "msg_event = None" and cne: "calls \<noteq> []"
      and n: "map (\<lambda>c. tc_metrics (snd c)) calls = mtr # replicate (length calls - 1) None"
      by auto
    from ne msg have ev: "normalized_events st' = normalized_events st"
      by simp
    note first = store_calls_metrics(3) [OF sc keys cne n]
    from cne keys have hk: "hd keys \<in> set keys"
      by (cases calls) auto
    have "filter ?has (remdups keys) =
        filter (\<lambda>key. key = hd keys) (if hd keys \<notin> set (tl keys) \<and> mtr \<noteq> None
                                       then remdups keys else [])"
    proof (cases "hd keys \<notin> set (tl keys) \<and> mtr \<noteq> None")
      case True
      have "filter ?has (remdups keys) = filter (\<lambda>key. key = hd keys) (remdups keys)"
      proof (rule filter_cong [OF refl])
        fix key assume "key \<in> set (remdups keys)"
        then have "key \<in> set keys" by simp
        with first obtain ev where "map_of (pending_calls st') key = Some ev"
          "tc_metrics ev = (if key = hd keys \<and> key \<notin> set (tl keys) then mtr else None)"
          by blast
        with True show "?has key = (key = hd keys)"
          by auto
      qed
      with True show ?thesis by simp
    next
      case F: False
      have "filter ?has (remdups keys) = []"
        unfolding filter_empty_conv
      proof
        fix key assume "key \<in> set (remdups keys)"
        then have "key \<in> set keys" by simp
        with first obtain ev where "map_of (pending_calls st') key = Some ev"
          "tc_metrics ev = (if key = hd keys \<and> key \<notin> set (tl keys) then mtr else None)"
          by blast
        with F show "\<not> ?has key"
          by auto
      qed
      with F show ?thesis by auto
    qed
    then have "length (filter ?has (remdups keys)) =
        (if hd keys \<notin> set (tl keys) \<and> mtr \<noteq> None then 1 else 0)"
      using hk by (simp add: distinct_length_filter_eq)
    with ev False have count: "length (filter (\<lambda>e. event_metrics e \<noteq> None)
          (drop (length (normalized_events st)) (normalized_events st'))) +
        length (filter ?has (remdups keys)) =
        (if mtr = None then 0
         else if (tx \<noteq> [] \<or> nonempty reasoning \<or> tool_blocks = []) \<or>
                 hd keys \<notin> set (tl keys)
         then 1 else 0)"
      by simp
    from ev first have branch:
      "if tx \<noteq> [] \<or> nonempty reasoning \<or> tool_blocks = []
       then (\<exists>e. normalized_events st' = normalized_events st @ [Message e] \<and>
                 me_metrics e = mtr) \<and>
            (\<forall>key \<in> set keys. \<exists>ev. map_of (pending_calls st') key = Some ev \<and>
               tc_metrics ev = None)
       else normalized_events st' = normalized_events st \<and>
            (\<forall>key \<in> set keys. \<exists>ev. map_of (pending_calls st') key = Some ev \<and>
               tc_metrics ev =
                 (if key = hd keys \<and> key \<notin> set (tl keys) then mtr else None))"
      unfolding if_not_P [OF False] by (rule conjI)
    from x m keys_def unchanged branch count show ?thesis
      by (intro exI conjI)
  qed
qed

text \<open>
  The witness: a message with two tool-use blocks and no text, handled in the starting
  state. With the identifiers \<open>t1\<close> and \<open>t2\<close> the metrics of its usage are on the
  pending event of \<open>t1\<close>; when both blocks have the identifier \<open>t1\<close>, the one pending
  event has no metrics. And a message with a text block and a tool-use block: the metrics
  are on the message event.
\<close>

theorem text_message_metrics_on_one_event_witness:
  "(\<exists>st'. handle_text env0 JNull JNull tool_only_content state0 = Inr st' \<and>
      normalized_events st' = [] \<and>
      (\<exists>ev. map_of (pending_calls st') (JStr ''t1'') = Some ev \<and>
         tc_metrics ev =
           Some \<lparr>prompt_tokens = JInt 10, completion_tokens = JInt 5, cached_tokens = JInt 0,
                  cost_usd = JNull, metrics_extra = None\<rparr>) \<and>
      (\<exists>ev. map_of (pending_calls st') (JStr ''t2'') = Some ev \<and> tc_metrics ev = None)) \<and>
   (\<exists>st'. handle_text env0 JNull JNull same_id_content state0 = Inr st' \<and>
      normalized_events st' = [] \<and>
      (\<exists>ev. map_of (pending_calls st') (JStr ''t1'') = Some ev \<and> tc_metrics ev = None) \<and>
      length (filter (\<lambda>key. case map_of (pending_calls st') key of
                               None \<Rightarrow> False | Some ev \<Rightarrow> tc_metrics ev \<noteq> None)
                [JStr ''t1'']) = 0) \<and>
   (\<exists>st'. handle_text env0 JNull JNull text_and_tool_content state0 = Inr st' \<and>
      (\<exists>e. normalized_events st' = [Message e] \<and>
         me_metrics e =
           Some \<lparr>prompt_tokens = JInt 10, completion_tokens = JInt 5, cached_tokens = JInt 0,
                  cost_usd = JNull, metrics_extra = None\<rparr>) \<and>
      (\<exists>ev. map_of (pending_calls st') (JStr ''t1'') = Some ev \<and> tc_metrics ev = None))"
proof -
  let ?M = "\<lparr>prompt_tokens = JInt 10, completion_tokens = JInt 5, cached_tokens = JInt 0,
             cost_usd = JNull, metrics_extra = None\<rparr>"
  let ?first = "[(''type'', JStr ''tool_use''), (''name'', JStr ''read''), (''id'', JStr ''t1'')]"
  have s0: "normalized_events state0 = []" "uuid_count state0 = 1"
    by (simp_all add: state0_def)
  have first: "\<exists>st'. handle_text env0 JNull JNull tool_only_content state0 = Inr st' \<and>
      normalized_events st' = [] \<and>
      (\<exists>ev. map_of (pending_calls st') (JStr ''t1'') = Some ev \<and> tc_metrics ev = Some ?M) \<and>
      (\<exists>ev. map_of (pending_calls st') (JStr ''t2'') = Some ev \<and> tc_metrics ev = None)"
  proof -
    let ?later = "[(''type'', JStr ''tool_use''), (''name'', JStr ''write''), (''id'', JStr ''t2'')]"
    have "case handle_text env0 JNull JNull tool_only_content state0 of
            Inr st' \<Rightarrow> True | _ \<Rightarrow> False"
      by code_simp
    then obtain st' :: norm_state where
      h: "handle_text env0 JNull JNull tool_only_content state0 = Inr st'"
      by (auto split: sum.splits)
    have x: "extract_text_reasoning_tool_uses env0
        (dict_get_default tool_only_content ''content'' (JStr [])) =
      Inr ([], None, [?first, ?later])"
      by code_simp
    have u: "(if truthy (dict_get tool_only_content ''usage'')
        then build_metrics (dict_get tool_only_content ''usage'') else Inr None) = Inr (Some ?M)"
      by code_simp
    have ids: "map key_norm (tool_block_call_ids env0 [?first, ?later] 1) =
        [JStr ''t1'', JStr ''t2'']"
      by code_simp
    from text_message_metrics_on_one_event [OF h] obtain tx reasoning tool_blocks mtr keys where
      a: "extract_text_reasoning_tool_uses env0
          (dict_get_default tool_only_content ''content'' (JStr [])) =
        Inr (tx, reasoning, tool_blocks)"
      and b: "(if truthy (dict_get tool_only_content ''usage'')
          then build_metrics (dict_get tool_only_content ''usage'') else Inr None) = Inr mtr"
      and c: "keys = map key_norm (tool_block_call_ids env0 tool_blocks (uuid_count state0))"
      and e: "if tx \<noteq> [] \<or> nonempty reasoning \<or> tool_blocks = []
            then (\<exists>e. normalized_events st' = normalized_events state0 @ [Message e] \<and>
                      me_metrics e = mtr) \<and>
                 (\<forall>key \<in> set keys. \<exists>ev. map_of (pending_calls st') key = Some ev \<and>
                    tc_metrics ev = None)
            else normalized_events st' = normalized_events state0 \<and>
                 (\<forall>key \<in> set keys. \<exists>ev. map_of (pending_calls st') key = Some ev \<and>
                    tc_metrics ev =
                      (if key = hd keys \<and> key \<notin> set (tl keys) then mtr else None))"
      by blast
    from a x have v: "tx = []" "reasoning = None" "tool_blocks = [?first, ?later]"
      by simp_all
    from b u have mtr: "mtr = Some ?M" by simp
    from c ids have keys: "keys = [JStr ''t1'', JStr ''t2'']"
      unfolding v s0 by simp
    from e have "normalized_events st' = [] \<and>
        (\<exists>ev. map_of (pending_calls st') (JStr ''t1'') = Some ev \<and> tc_metrics ev = Some ?M) \<and>
        (\<exists>ev. map_of (pending_calls st') (JStr ''t2'') = Some ev \<and> tc_metrics ev = None)"
      unfolding v keys mtr s0 by (simp add: nonempty_def)
    with h show ?thesis by blast
  qed
  have second: "\<exists>st'. handle_text env0 JNull JNull same_id_content state0 = Inr st' \<and>
      normalized_events st' = [] \<and>
      (\<exists>ev. map_of (pending_calls st') (JStr ''t1'') = Some ev \<and> tc_metrics ev = None) \<and>
      length (filter (\<lambda>key. case map_of (pending_calls st') key of
                               None \<Rightarrow> False | Some ev \<Rightarrow> tc_metrics ev \<noteq> None)
                [JStr ''t1'']) = 0"
  proof -
    let ?later = "[(''type'', JStr ''tool_use''), (''name'', JStr ''write''), (''id'', JStr ''t1'')]"
    have "case handle_text env0 JNull JNull same_id_content state0 of
            Inr st' \<Rightarrow> True | _ \<Rightarrow> False"
      by code_simp
    then obtain st' :: norm_state where
      h: "handle_text env0 JNull JNull same_id_content state0 = Inr st'"
      by (auto split: sum.splits)
    have x: "extract_text_reasoning_tool_uses env0
        (dict_get_default same_id_content ''content'' (JStr [])) =
      Inr ([], None, [?first, ?later])"
      by code_simp
    have u: "(if truthy (dict_get same_id_content ''usage'')
        then build_metrics (dict_get same_id_content ''usage'') else Inr None) = Inr (Some ?M)"
      by code_simp
    have ids: "map key_norm (tool_block_call_ids env0 [?first, ?later] 1) =
        [JStr ''t1'', JStr ''t1'']"
      by code_simp
    from text_message_metrics_on_one_event [OF h] obtain tx reasoning tool_blocks mtr keys where
      a: "extract_text_reasoning_tool_uses env0
          (dict_get_default same_id_content ''content'' (JStr [])) =
        Inr (tx, reasoning, tool_blocks)"
      and b: "(if truthy (dict_get same_id_content ''usage'')
          then build_metrics (dict_get same_id_content ''usage'') else Inr None) = Inr mtr"
      and c: "keys = map key_norm (tool_block_call_ids env0 tool_blocks (uuid_count state0))"
      and e: "if tx \<noteq> [] \<or> nonempty reasoning \<or> tool_blocks = []
            then (\<exists>e. normalized_events st' = normalized_events state0 @ [Message e] \<and>
                      me_metrics e = mtr) \<and>
                 (\<forall>key \<in> set keys. \<exists>ev. map_of (pending_calls st') key = Some ev \<and>
                    tc_metrics ev = None)
            else normalized_events st' = normalized_events state0 \<and>
                 (\<forall>key \<in> set keys. \<exists>ev. map_of (pending_calls st') key = Some ev \<and>
                    tc_metrics ev =
                      (if key = hd keys \<and> key \<notin> set (tl keys) then mtr else None))"
      and n: "length (filter (\<lambda>e. event_metrics e \<noteq> None)
                     (drop (length (normalized_events state0)) (normalized_events st'))) +
           length (filter (\<lambda>key. case map_of (pending_calls st') key of
                                    None \<Rightarrow> False | Some ev \<Rightarrow> tc_metrics ev \<noteq> None)
                     (remdups keys)) =
             (if mtr = None then 0
              else if (tx \<noteq> [] \<or> nonempty reasoning \<or> tool_blocks = []) \<or>
                      hd keys \<notin> set (tl keys)
              then 1 else 0)"
      by blast
    from a x have v: "tx = []" "reasoning = None" "tool_blocks = [?first, ?later]"
      by simp_all
    from b u have mtr: "mtr = Some ?M" by simp
    from c ids have keys: "keys = [JStr ''t1'', JStr ''t1'']"
      unfolding v s0 by simp
    from e have "normalized_events st' = [] \<and>
        (\<exists>ev. map_of (pending_calls st') (JStr ''t1'') = Some ev \<and> tc_metrics ev = None)"
      unfolding v keys mtr s0 by (simp add: nonempty_def)
    moreover from n have "length (filter (\<lambda>key. case map_of (pending_calls st') key of
                               None \<Rightarrow> False | Some ev \<Rightarrow> tc_metrics ev \<noteq> None)
                [JStr ''t1'']) = 0"
      unfolding v keys mtr s0 by (simp add: nonempty_def)
    ultimately show ?thesis using h by blast
  qed
  have third: "\<exists>st'. handle_text env0 JNull JNull text_and_tool_content state0 = Inr st' \<and>
      (\<exists>e. normalized_events st' = [Message e] \<and> me_metrics e = Some ?M) \<and>
      (\<exists>ev. map_of (pending_calls st') (JStr ''t1'') = Some ev \<and> tc_metrics ev = None)"
  proof -
    have "case handle_text env0 JNull JNull text_and_tool_content state0 of
            Inr st' \<Rightarrow> True | _ \<Rightarrow> False"
      by code_simp
    then obtain st' :: norm_state where
      h: "handle_text env0 JNull JNull text_and_tool_content state0 = Inr st'"
      by (auto split: sum.splits)
    have x: "extract_text_reasoning_tool_uses env0
        (dict_get_default text_and_tool_content ''content'' (JStr [])) =
      Inr (''hi'', None, [?first])"
      by code_simp
    have u: "(if truthy (dict_get text_and_tool_content ''usage'')
        then build_metrics (dict_get text_and_tool_content ''usage'') else Inr None) =
        Inr (Some ?M)"
      by code_simp
    have ids: "map key_norm (tool_block_call_ids env0 [?first] 1) = [JStr ''t1'']"
      by code_simp
    from text_message_metrics_on_one_event [OF h] obtain tx reasoning tool_blocks mtr keys where
      a: "extract_text_reasoning_tool_uses env0
          (dict_get_default text_and_tool_content ''content'' (JStr [])) =
        Inr (tx, reasoning, tool_blocks)"
      and b: "(if truthy (dict_get text_and_tool_content ''usage'')
          then build_metrics (dict_get text_and_tool_content ''usage'') else Inr None) = Inr mtr"
      and c: "keys = map key_norm (tool_block_call_ids env0 tool_blocks (uuid_count state0))"
      and e: "if tx \<noteq> [] \<or> nonempty reasoning \<or> tool_blocks = []
            then (\<exists>e. normalized_events st' = normalized_events state0 @ [Message e] \<and>
                      me_metrics e = mtr) \<and>
                 (\<forall>key \<in> set keys. \<exists>ev. map_of (pending_calls st') key = Some ev \<and>
                    tc_metrics ev = None)
            else normalized_events st' = normalized_events state0 \<and>
                 (\<forall>key \<in> set keys. \<exists>ev. map_of (pending_calls st') key = Some ev \<and>
                    tc_metrics ev =
                      (if key = hd keys \<and> key \<notin> set (tl keys) then mtr else None))"
      by blast
    from a x have v: "tx = ''hi''" "reasoning = None" "tool_blocks = [?first]"
      by simp_all
    from b u have mtr: "mtr = Some ?M" by simp
    from c ids have keys: "keys = [JStr ''t1'']"
      unfolding v s0 by simp
    from e have "(\<exists>e. normalized_events st' = [Message e] \<and> me_metrics e = Some ?M) \<and>
        (\<exists>ev. map_of (pending_calls st') (JStr ''t1'') = Some ev \<and> tc_metrics ev = None)"
      unfolding v keys mtr s0 by simp
    with h show ?thesis by blast
  qed
  from first second third show ?thesis by (intro conjI)
qed

text \<open>
  The trajectory of that second message: one step, of the later block, without metrics,
  and no token totals.
\<close>

lemma same_id_blocks_trajectory:
  "(case convert_forge_conversation_to_trajectory env0
           (record_of [[(''text'', JDict same_id_content)]]) of
      Inr (Some t) \<Rightarrow>
        map step_message (traj_steps t) = [''Executed write t1''] \<and>
        map step_metrics (traj_steps t) = [None] \<and>
        total_prompt_tokens (traj_final_metrics t) = None
    | _ \<Rightarrow> False)"
  by code_simp

section \<open>Pending calls have no output\<close>









text \<open>
  A message is handled as a tool result only when it is not handled as a text message:
  its type is not \<^verbatim>\<open>text\<close>, and a payload that is a mapping has no \<^verbatim>\<open>content\<close>
  key.
\<close>

lemma classify_ToolResult_payload:
  assumes "classify m = Inr (ToolResult tool_data)"
  shows "msg_type_of m \<noteq> JStr ''text'' \<and>
         (\<forall>c. msg_content_of m (msg_type_of m) = Inr (JDict c) \<longrightarrow>
            tool_data = c \<and> \<not> dict_has c ''content'')"
  using assms unfolding classify_def Let_def
  by (auto simp: ebind_eq_Inr split: if_splits)

text \<open>
  So the \<^verbatim>\<open>content\<close> of a result is read only when the payload is not a mapping and
  the message itself is the tool data, as here.
\<close>

lemma classify_unwrapped_result:
  "classify [(''type'', JStr ''tool''), (''tool'', JStr ''read''),
             (''tool_call_id'', JStr ''t1''), (''content'', JStr [])] =
     Inr (ToolResult [(''type'', JStr ''tool''), (''tool'', JStr ''read''),
                      (''tool_call_id'', JStr ''t1''), (''content'', JStr [])])"
  by code_simp

section \<open>A tool result with an empty output\<close>




section \<open>Entries of the message list that are not mappings\<close>

lemma handle_message_non_dict: "\<not> is_dict msg \<Longrightarrow> handle_message env d st msg = Inr st"
  by (cases msg) (simp_all add: handle_message_def)

lemma walk_messages_filter:
  "walk_messages env d (filter is_dict msgs) st = walk_messages env d msgs st"
proof (induction msgs arbitrary: st)
  case Nil
  show ?case by simp
next
  case (Cons msg msgs)
  have rest: "walk_messages env d (filter is_dict msgs) = walk_messages env d msgs"
    by (rule ext) (rule Cons.IH)
  show ?case
  proof (cases "is_dict msg")
    case True
    then show ?thesis by (simp add: rest)
  next
    case False
    then show ?thesis by (simp add: handle_message_non_dict Cons.IH)
  qed
qed

lemma find_model_filter: "find_model d (filter is_dict msgs) = find_model d msgs"
  by (induction d msgs rule: find_model.induct) (simp_all split: json.splits)

lemma trajectory_of_messages_filter:
  "trajectory_of_messages env cd (filter is_dict msgs) = trajectory_of_messages env cd msgs"
  unfolding trajectory_of_messages_def find_model_filter walk_messages_filter ..

lemma trajectory_of_messages_Nil: "trajectory_of_messages env cd [] = Inr None"
  by (simp add: trajectory_of_messages_def)

text \<open>The conversion reads the record only at its identifier and for the cost.\<close>

lemma trajectory_of_messages_cong:
  assumes "map_of cd' ''id'' = map_of cd ''id''"
    and "map_of cd' ''metrics'' = map_of cd ''metrics''"
    and "map_of cd' ''accumulated_usage'' = map_of cd ''accumulated_usage''"
  shows "trajectory_of_messages env cd' msgs = trajectory_of_messages env cd msgs"
proof -
  from assms have a: "total_cost_of cd' = total_cost_of cd"
    by (simp add: total_cost_of_def dict_get_def dict_get_default_def)
  from assms have b: "dict_get_default cd' ''id'' x = dict_get_default cd ''id'' x" for x
    by (simp add: dict_get_default_def)
  show ?thesis
    unfolding trajectory_of_messages_def a b ..
qed

lemma convert_list:
  assumes "dict_get cd ''context'' = JDict c" and "dict_get c ''messages'' = JList msgs"
  shows "convert_forge_conversation_to_trajectory env cd = trajectory_of_messages env cd msgs"
proof -
  from assms(2) have m: "dict_get_default c ''messages'' (JList []) = JList msgs"
    by (auto simp: dict_get_def dict_get_default_def split: option.splits)
  from assms(2) have "c \<noteq> []"
    by (auto simp: dict_get_def dict_get_default_def)
  with assms(1) m show ?thesis
    by (cases "msgs = []")
       (simp_all add: convert_forge_conversation_to_trajectory_def trajectory_of_messages_Nil)
qed

text \<open>
  C8: for every raw conversation record, the entries of the message list that are not
  mappings are skipped by the normalizer: the walk over the messages ends in the same
  state with and without them, so they give no normalized event, and the conversion of
  the record gives the same result (the same steps and the same aggregate metrics, or the
  same error or empty result) as the conversion of the record without these entries.
\<close>

theorem non_mapping_messages_are_skipped:
  assumes "dict_get cd ''context'' = JDict c" and "dict_get c ''messages'' = JList msgs"
  shows "convert_forge_conversation_to_trajectory env
           (dict_set cd ''context''
              (JDict (dict_set c ''messages'' (JList (filter is_dict msgs))))) =
         convert_forge_conversation_to_trajectory env cd \<and>
         walk_messages env d (filter is_dict msgs) st = walk_messages env d msgs st"
proof -
  let ?c' = "dict_set c ''messages'' (JList (filter is_dict msgs))"
  let ?cd' = "dict_set cd ''context'' (JDict ?c')"
  have c': "dict_get ?cd' ''context'' = JDict ?c'"
    by (simp add: dict_get_def dict_get_default_def map_of_dict_set)
  have m': "dict_get ?c' ''messages'' = JList (filter is_dict msgs)"
    by (simp add: dict_get_def dict_get_default_def map_of_dict_set)
  have "convert_forge_conversation_to_trajectory env ?cd' =
      trajectory_of_messages env ?cd' (filter is_dict msgs)"
    by (rule convert_list [OF c' m'])
  also have "\<dots> = trajectory_of_messages env cd (filter is_dict msgs)"
    by (rule trajectory_of_messages_cong) (simp_all add: map_of_dict_set)
  also have "\<dots> = trajectory_of_messages env cd msgs"
    by (rule trajectory_of_messages_filter)
  also have "\<dots> = convert_forge_conversation_to_trajectory env cd"
    by (rule convert_list [OF assms, symmetric])
  finally show ?thesis
    by (simp add: walk_messages_filter)
qed

text \<open>
  The witness: a message list with a string, a user message, a number and \<^verbatim>\<open>None\<close>.
  The record converts as the record with the user message alone, to one step.
\<close>

theorem non_mapping_messages_are_skipped_witness:
  "dict_get junk_record ''context'' = JDict [(''messages'', JList junk_messages)] \<and>
   dict_get [(''messages'', JList junk_messages)] ''messages'' = JList junk_messages \<and>
   filter is_dict junk_messages = [JDict user_hi] \<and>
   convert_forge_conversation_to_trajectory env0 (record_of [user_hi]) =
     convert_forge_conversation_to_trajectory env0 junk_record \<and>
   (case convert_forge_conversation_to_trajectory env0 junk_record of
      Inr (Some t) \<Rightarrow> map step_message (traj_steps t) = [''hi''] | _ \<Rightarrow> False)"
proof -
  have ctx: "dict_get junk_record ''context'' = JDict [(''messages'', JList junk_messages)]"
    by code_simp
  have msgs: "dict_get [(''messages'', JList junk_messages)] ''messages'' = JList junk_messages"
    by code_simp
  have f: "filter is_dict junk_messages = [JDict user_hi]"
    by code_simp
  have r: "dict_set junk_record ''context''
      (JDict (dict_set [(''messages'', JList junk_messages)] ''messages''
                (JList (filter is_dict junk_messages)))) = record_of [user_hi]"
    by code_simp
  have e: "case convert_forge_conversation_to_trajectory env0 junk_record of
      Inr (Some t) \<Rightarrow> map step_message (traj_steps t) = [''hi''] | _ \<Rightarrow> False"
    by code_simp
  from non_mapping_messages_are_skipped [OF ctx msgs, of env0] ctx msgs f e show ?thesis
    unfolding r by simp
qed

end
